theory Spec2Isabelle
  imports Complex_Main
begin

section \<open>Data model (pendulum.hpp)\<close>

text \<open>
  The C++ type \<open>double\<close> is embedded as \<^typ>\<open>real\<close>: the arithmetic is exact, without
  rounding, infinities or NaN. The \<open>float\<close> arithmetic of the sampling index, coarse
  enough to change which chains are read, is embedded with its rounding. Where the
  estimator divides by a \<open>std::size_t\<close> that is zero, the model returns the value
  \<open>NotANumber\<close> instead of a quotient. In the acceleration formulas a zero denominator
  gives an infinity or a NaN in the source and the quotient 0 in \<^typ>\<open>real\<close>; every
  statement below on an acceleration equates it with the same quotient of the same
  operands. \<open>std::size_t\<close> is embedded as \<^typ>\<open>nat\<close>, with the one sum that can wrap
  written out modulo \<open>2 ^ 64\<close>. A \<open>std::vector\<close> is a list; an access beyond its size,
  undefined behaviour in the source, is the value \<open>OutOfRange\<close>, and the increment of
  an \<open>int\<close> at its largest value is \<open>Overflow\<close>.
\<close>

datatype error = RuntimeError string | OutOfRange | NotANumber | Overflow

text \<open>\<open>struct Vector2Double { double x; double y; }\<close>; the fields are \<open>vec_x\<close> and \<open>vec_y\<close>.\<close>

datatype Vector2Double = Vector2Double (vec_x: real) (vec_y: real)

text \<open>\<open>struct Pendulum\<close>; the field \<open>length\<close> is \<open>lengthP\<close> here.\<close>

record Pendulum =
  position :: Vector2Double
  velocity :: Vector2Double
  lengthP :: real
  mass :: real
  angle :: real
  angularVelocity :: real
  angularAcceleration :: real

text \<open>\<open>struct SimulationSettings\<close>, the process-wide \<open>settings\<close>.\<close>

record SimulationSettings =
  gravity :: real
  fixedDeltaTime :: real
  trajectoryAlphaPower :: real
  pendulumsJoined :: nat
  joinedPendulumsCount :: nat
  trajectoryPoints :: nat
  pendulumLength :: real
  pendulumMass :: real
  pendulumColorSaturation :: real
  pendulumColorValue :: real
  resetThreshold :: real
  resetSamples :: nat
  resetFadeTime :: real

text \<open>\<open>struct JoinedPendulum\<close>: the segments, the trajectory buffer and its cursor.\<close>

record JoinedPendulum =
  pendulums :: "Pendulum list"
  trajectories :: "Vector2Double list"
  trajectoryIndex :: nat

text \<open>The constructor \<open>SimulationSettings()\<close> with the default values.\<close>

definition SimulationSettings_default :: SimulationSettings where
  "SimulationSettings_default =
     \<lparr> gravity = 0.981, fixedDeltaTime = 0.1666667, trajectoryAlphaPower = 2.5,
       pendulumsJoined = 2, joinedPendulumsCount = 1000, trajectoryPoints = 50,
       pendulumLength = 150, pendulumMass = 10,
       pendulumColorSaturation = 0.5, pendulumColorValue = 1,
       resetThreshold = 10, resetSamples = 100, resetFadeTime = 2.5 \<rparr>"

text \<open>\<open>Pendulum()\<close> and \<open>Pendulum(length, mass, initialAngle)\<close>.\<close>

definition Pendulum_default :: Pendulum where
  "Pendulum_default =
     \<lparr> position = Vector2Double 0 0, velocity = Vector2Double 0 0, lengthP = 0, mass = 0,
       angle = 0, angularVelocity = 0, angularAcceleration = 0 \<rparr>"

definition Pendulum_init :: "real \<Rightarrow> real \<Rightarrow> real \<Rightarrow> Pendulum" where
  "Pendulum_init len m initialAngle =
     \<lparr> position = Vector2Double 0 0, velocity = Vector2Double 0 0, lengthP = len, mass = m,
       angle = initialAngle, angularVelocity = 0, angularAcceleration = 0 \<rparr>"

section \<open>Loops\<close>

text \<open>
  \<open>for (std::size_t i = i0; i < n; i++) body\<close> over a state \<open>s\<close>: the body is a function
  of the index and the state. The counter only grows towards \<open>n\<close>, so the loop ends.
\<close>

function for_loop :: "nat \<Rightarrow> nat \<Rightarrow> (nat \<Rightarrow> 's \<Rightarrow> 's) \<Rightarrow> 's \<Rightarrow> 's" where
  "for_loop i n body s = (if i < n then for_loop (Suc i) n body (body i s) else s)"
  by pat_completeness auto
termination
  by (relation "measure (\<lambda>(i, n, body, s). n - i)") auto

declare for_loop.simps [simp del]

section \<open>Chain construction (\<open>JoinedPendulum::JoinedPendulum\<close>)\<close>

text \<open>The body of the first loop: \<open>pendulums[i] = Pendulum(lengths[i], masses[i], initialAngles[i])\<close>.\<close>

definition ctor_init_body :: "real list \<Rightarrow> real list \<Rightarrow> real list \<Rightarrow> nat \<Rightarrow> Pendulum list \<Rightarrow> Pendulum list" where
  "ctor_init_body lengths masses initialAngles i ps =
     ps[i := Pendulum_init (lengths ! i) (masses ! i) (initialAngles ! i)]"

text \<open>The body of the second loop, from \<open>i = 1\<close>: the position of segment \<open>i\<close> from that of \<open>i - 1\<close>.\<close>

definition ctor_connect_body :: "nat \<Rightarrow> Pendulum list \<Rightarrow> Pendulum list" where
  "ctor_connect_body i ps =
     (let pos_1 = position (ps ! (i - 1));
          len = lengthP (ps ! i);
          ang = angle (ps ! i)
      in ps[i := (ps ! i)\<lparr> position :=
           Vector2Double (vec_x pos_1 + len * sin ang) (vec_y pos_1 + len * cos ang) \<rparr>])"

text \<open>
  The constructor. The three size checks come first and throw \<open>std::runtime_error\<close>;
  nothing of the chain exists then. \<open>resize\<close> fills with \<open>Pendulum()\<close>, and the
  trajectory buffer with zero vectors.
\<close>

definition JoinedPendulum_ctor ::
  "nat \<Rightarrow> real list \<Rightarrow> real list \<Rightarrow> real list \<Rightarrow> nat \<Rightarrow> error + JoinedPendulum" where
  "JoinedPendulum_ctor sz lengths masses initialAngles trajectoriesSize =
     (if length lengths \<noteq> sz then Inl (RuntimeError ''Invalid size provided for lengths'')
      else if length masses \<noteq> sz then Inl (RuntimeError ''Invalid size provided for masses'')
      else if length initialAngles \<noteq> sz
        then Inl (RuntimeError ''Invalid size provided for initialAngles'')
      else
        (let ps0 = replicate sz Pendulum_default;
             ps1 = for_loop 0 (length ps0) (ctor_init_body lengths masses initialAngles) ps0;
             ps2 = for_loop 1 (length ps1) ctor_connect_body ps1
         in Inr \<lparr> pendulums = ps2,
                  trajectories = replicate trajectoriesSize (Vector2Double 0 0),
                  trajectoryIndex = 0 \<rparr>))"

section \<open>The integrator (\<open>JoinedPendulum::Update\<close>)\<close>

text \<open>
  The two blocks of formulas of the acceleration loop, as functions of the locals
  \<open>g\<close>, \<open>a1\<close>, \<open>a2\<close>, \<open>m1\<close>, \<open>m2\<close>, \<open>l1\<close>, \<open>l2\<close> and of the two angular
  velocities \<open>w1 = p1.angularVelocity\<close>, \<open>w2 = p2.angularVelocity\<close> they read.
\<close>

definition accel_first ::
  "real \<Rightarrow> real \<Rightarrow> real \<Rightarrow> real \<Rightarrow> real \<Rightarrow> real \<Rightarrow> real \<Rightarrow> real \<Rightarrow> real \<Rightarrow> real" where
  "accel_first g a1 a2 m1 m2 l1 l2 w1 w2 =
     (let n1 = - g * (2 * m1 + m2) * sin a1;
          n2 = - m2 * g * sin (a1 - 2 * a2);
          n3 = - 2 * sin (a1 - a2) * m2;
          n4 = w2 * w2 * l2 + w1 * w1 * l1 * cos (a1 - a2);
          d = l1 * (2 * m1 + m2 - m2 * cos (2 * a1 - 2 * a2))
      in (n1 + n2 + n3 * n4) / d)"

definition accel_second ::
  "real \<Rightarrow> real \<Rightarrow> real \<Rightarrow> real \<Rightarrow> real \<Rightarrow> real \<Rightarrow> real \<Rightarrow> real \<Rightarrow> real \<Rightarrow> real" where
  "accel_second g a1 a2 m1 m2 l1 l2 w1 w2 =
     (let n1 = 2 * sin (a1 - a2);
          n2 = w1 * w1 * l1 * (m1 + m2);
          n3 = g * (m1 + m2) * cos a1;
          n4 = w2 * w2 * l2 * m2 * cos (a1 - a2);
          d = l2 * (2 * m1 + m2 - m2 * cos (2 * a1 - 2 * a2))
      in (n1 * (n2 + n3 + n4)) / d)"

text \<open>
  The body of the loop "Update angular acceleration" at index \<open>i\<close>: \<open>p1\<close> and \<open>p2\<close> are
  references to \<open>pendulums[i]\<close> and \<open>pendulums[i + 1]\<close>; the angles, masses and lengths
  are copied into locals first, the velocities are read through the references when
  each block runs, and each block ends in one write of \<open>angularAcceleration\<close>.
\<close>

definition Update_accel_body :: "SimulationSettings \<Rightarrow> nat \<Rightarrow> Pendulum list \<Rightarrow> Pendulum list" where
  "Update_accel_body st i ps =
     (let a1 = angle (ps ! i);
          a2 = angle (ps ! (i + 1));
          m1 = mass (ps ! i);
          m2 = mass (ps ! (i + 1));
          l1 = lengthP (ps ! i);
          l2 = lengthP (ps ! (i + 1));
          g = gravity st;
          ps1 = ps[i := (ps ! i)\<lparr> angularAcceleration :=
                  accel_first g a1 a2 m1 m2 l1 l2
                    (angularVelocity (ps ! i)) (angularVelocity (ps ! (i + 1))) \<rparr>]
      in ps1[i + 1 := (ps1 ! (i + 1))\<lparr> angularAcceleration :=
                  accel_second g a1 a2 m1 m2 l1 l2
                    (angularVelocity (ps1 ! i)) (angularVelocity (ps1 ! (i + 1))) \<rparr>])"

text \<open>
  The body of the loop "Update angle and position" at index \<open>i\<close>: velocity, then
  angle, then position, the last one from the position of segment \<open>i - 1\<close> as the
  same loop has just left it.
\<close>

definition Update_integrate_body :: "SimulationSettings \<Rightarrow> nat \<Rightarrow> Pendulum list \<Rightarrow> Pendulum list" where
  "Update_integrate_body st i ps =
     (let p = ps ! i;
          p = p\<lparr> angularVelocity := angularVelocity p + angularAcceleration p * fixedDeltaTime st \<rparr>;
          p = p\<lparr> angle := angle p + angularVelocity p * fixedDeltaTime st \<rparr>;
          p = (if i = 0
               then p\<lparr> position := Vector2Double (lengthP p * sin (angle p))
                                                  (lengthP p * cos (angle p)) \<rparr>
               else (let pp = ps ! (i - 1)
                     in p\<lparr> position :=
                          Vector2Double (vec_x (position pp) + lengthP p * sin (angle p))
                                        (vec_y (position pp) + lengthP p * cos (angle p)) \<rparr>))
      in ps[i := p])"

text \<open>The single pendulum case, on \<open>p = pendulums[0]\<close>.\<close>

definition Update_single :: "SimulationSettings \<Rightarrow> Pendulum \<Rightarrow> Pendulum" where
  "Update_single st p0 =
     (let p = p0\<lparr> angularAcceleration := - gravity st / lengthP p0 * sin (angle p0) \<rparr>;
          p = p\<lparr> angularVelocity := angularAcceleration p * fixedDeltaTime st \<rparr>;
          p = p\<lparr> angle := angle p + angularVelocity p * fixedDeltaTime st \<rparr>
      in p\<lparr> position := Vector2Double (lengthP p * sin (angle p)) (lengthP p * cos (angle p)) \<rparr>)"

text \<open>
  The two loops of the general case, one after the other, on the \<open>n\<close> segments: the
  accelerations for the indices below \<open>n - 1\<close>, then velocity, angle and position for
  every index.
\<close>

definition Update_loops :: "SimulationSettings \<Rightarrow> Pendulum list \<Rightarrow> Pendulum list" where
  "Update_loops st ps =
     for_loop 0 (length ps) (Update_integrate_body st)
       (for_loop 0 (length ps - 1) (Update_accel_body st) ps)"

text \<open>
  One tick of a chain. With no segment the function returns at once; with one segment it
  returns after the single pendulum case; otherwise the two loops run and the position
  of the last segment is stored at \<open>trajectories[trajectoryIndex]\<close>, which is outside
  the buffer when the cursor is not below its size (always so for an empty buffer).
\<close>

definition Update :: "SimulationSettings \<Rightarrow> JoinedPendulum \<Rightarrow> error + JoinedPendulum" where
  "Update st jp =
     (let n = length (pendulums jp) in
      if n = 0 then Inr jp
      else if n = 1
        then Inr (jp\<lparr> pendulums := (pendulums jp)[0 := Update_single st (pendulums jp ! 0)] \<rparr>)
      else
        (let ps = Update_loops st (pendulums jp)
         in if trajectoryIndex jp < length (trajectories jp)
            then Inr (jp\<lparr> pendulums := ps,
                           trajectories := (trajectories jp)[trajectoryIndex jp := position (ps ! (n - 1))],
                           trajectoryIndex := (trajectoryIndex jp + 1) mod length (trajectories jp) \<rparr>)
            else Inl OutOfRange))"

text \<open>\<open>k\<close> ticks of one chain, one after the other.\<close>

fun ticks :: "SimulationSettings \<Rightarrow> nat \<Rightarrow> JoinedPendulum \<Rightarrow> error + JoinedPendulum" where
  "ticks st 0 jp = Inr jp"
| "ticks st (Suc k) jp = (case Update st jp of Inl e \<Rightarrow> Inl e | Inr jp' \<Rightarrow> ticks st k jp')"

text \<open>
  \<open>DrawTrajectory\<close> walks the buffer from \<open>trajectories[trajectoryIndex]\<close>, drawn with
  the lowest alpha, to the slot before the cursor: the slot at the cursor is the oldest
  entry, the one the next tick overwrites.
\<close>

definition oldest_entry :: "JoinedPendulum \<Rightarrow> Vector2Double" where
  "oldest_entry jp = trajectories jp ! ((trajectoryIndex jp + 0) mod length (trajectories jp))"

text \<open>The tip of a chain, \<open>pendulums.back().position\<close>; \<open>back()\<close> of an empty vector is undefined.\<close>

definition chain_tip :: "JoinedPendulum \<Rightarrow> error + Vector2Double" where
  "chain_tip jp = (if pendulums jp = [] then Inl OutOfRange else Inr (position (last (pendulums jp))))"

section \<open>Population seeding (\<open>InitializePendulums\<close>)\<close>

text \<open>
  A loop whose body can fail: the first failure ends it.
\<close>

function for_loop_err :: "nat \<Rightarrow> nat \<Rightarrow> (nat \<Rightarrow> 's \<Rightarrow> error + 's) \<Rightarrow> 's \<Rightarrow> error + 's" where
  "for_loop_err i n body s =
     (if i < n
      then (case body i s of Inl e \<Rightarrow> Inl e | Inr s' \<Rightarrow> for_loop_err (Suc i) n body s')
      else Inr s)"
  by pat_completeness auto
termination
  by (relation "measure (\<lambda>(i, n, body, s). n - i)") auto

declare for_loop_err.simps [simp del]

text \<open>\<open>std::fmod\<close> of \<open>cmath\<close>: the remainder of the division truncated towards zero.\<close>

definition fmod :: "real \<Rightarrow> real \<Rightarrow> real" where
  "fmod a b = a - of_int (if 0 \<le> a / b then \<lfloor>a / b\<rfloor> else \<lceil>a / b\<rceil>) * b"

text \<open>\<open>JoinedPendulum()\<close>, the element \<open>resize\<close> fills the population with.\<close>

definition JoinedPendulum_default :: JoinedPendulum where
  "JoinedPendulum_default = \<lparr> pendulums = [], trajectories = [], trajectoryIndex = 0 \<rparr>"

text \<open>
  The chain of index \<open>i\<close> among \<open>m\<close>, for the reset counter \<open>resets\<close>. \<open>PI\<close>, the
  constant of raylib, is \<^term>\<open>pi\<close>. The write \<open>initialAngles[0]\<close> is outside the vector
  when \<open>pendulumsJoined\<close> is zero.
\<close>

definition InitializePendulums_chain ::
  "SimulationSettings \<Rightarrow> int \<Rightarrow> nat \<Rightarrow> nat \<Rightarrow> error + JoinedPendulum" where
  "InitializePendulums_chain st resets m i =
     (let lengths = replicate (pendulumsJoined st) (pendulumLength st);
          masses = replicate (pendulumsJoined st) (pendulumMass st);
          initialAngles = replicate (pendulumsJoined st) pi
      in if length initialAngles = 0 then Inl OutOfRange
         else
           (let initialAngles = initialAngles[0 := pi + 0.125 + real i / real m * 0.0001];
                initialAngles = initialAngles[0 := initialAngles ! 0 +
                   (fmod (of_int resets * 0.5 + pi / 8) (pi / 4) - pi / 8)]
            in JoinedPendulum_ctor (pendulumsJoined st) lengths masses initialAngles
                 (trajectoryPoints st)))"

definition InitializePendulums_body ::
  "SimulationSettings \<Rightarrow> int \<Rightarrow> nat \<Rightarrow> JoinedPendulum list \<Rightarrow> error + JoinedPendulum list" where
  "InitializePendulums_body st resets i ps =
     (case InitializePendulums_chain st resets (length ps) i of
        Inl e \<Rightarrow> Inl e
      | Inr jp \<Rightarrow> Inr (ps[i := jp]))"

definition InitializePendulums :: "SimulationSettings \<Rightarrow> int \<Rightarrow> error + JoinedPendulum list" where
  "InitializePendulums st resets =
     (let ps = replicate (joinedPendulumsCount st) JoinedPendulum_default
      in for_loop_err 0 (length ps) (InitializePendulums_body st resets) ps)"

section \<open>The divergence estimator (\<open>GetDivergence\<close>)\<close>

text \<open>
  The sampling index is computed in \<open>float\<close>, the IEEE single precision: the cast of a
  \<open>std::size_t\<close>, the product and the quotient each give the nearest number with a
  significand of 24 bits, a tie going to the even significand. \<open>round_even\<close> is the
  nearest integer with ties to the even one, and \<open>float_round\<close> the nearest such number
  (exponents unbounded: the overflow is a separate check below, and the values here are
  never small enough to be subnormal). Each operation is taken to round to \<open>float\<close>, as
  on a target that evaluates \<open>float\<close> expressions in \<open>float\<close>.
\<close>

definition round_even :: "real \<Rightarrow> int" where
  "round_even x =
     (let f = \<lfloor>x\<rfloor>; r = x - of_int f
      in if r < 1 / 2 then f else if 1 / 2 < r then f + 1 else if even f then f else f + 1)"

definition float_round :: "real \<Rightarrow> real" where
  "float_round x =
     (if x = 0 then 0
      else (let e = \<lfloor>log 2 \<bar>x\<bar>\<rfloor> - 23
            in of_int (round_even (x / 2 powr of_int e)) * 2 powr of_int e))"

text \<open>
  \<open>(float)s * pendulums.size()\<close> and that product divided by \<open>resetSamples + 1\<close>, every
  operand converted to \<open>float\<close> and every operation rounded. The divisor is a
  \<open>std::size_t\<close> sum and wraps to zero at the largest value.
\<close>

definition sample_product :: "nat \<Rightarrow> nat \<Rightarrow> real" where
  "sample_product count s = float_round (float_round (real s) * float_round (real count))"

definition sample_quotient :: "SimulationSettings \<Rightarrow> nat \<Rightarrow> nat \<Rightarrow> real" where
  "sample_quotient st count s =
     float_round (sample_product count s / float_round (real ((resetSamples st + 1) mod 2 ^ 64)))"

text \<open>The index: \<open>std::floor\<close> of the quotient, converted to \<open>std::size_t\<close>.\<close>

definition sample_index :: "SimulationSettings \<Rightarrow> nat \<Rightarrow> nat \<Rightarrow> nat" where
  "sample_index st count s = nat \<lfloor>sample_quotient st count s\<rfloor>"

text \<open>
  The body of the sampling loop for the sample \<open>s\<close>. A zero divisor gives an infinity or
  a NaN; a product of \<open>2 ^ 128\<close> or more after rounding is an infinity in \<open>float\<close>, and a
  quotient of \<open>2 ^ 64\<close> or more has no \<open>std::size_t\<close> value: the conversion is undefined
  in each case. Both chains \<open>i\<close> and \<open>i + 1\<close> are then read without a check.
\<close>

definition GetDivergence_body ::
  "SimulationSettings \<Rightarrow> JoinedPendulum list \<Rightarrow> nat \<Rightarrow> real \<Rightarrow> error + real" where
  "GetDivergence_body st ps s divergence =
     (if (resetSamples st + 1) mod 2 ^ 64 = 0 then Inl NotANumber
      else if 2 ^ 128 \<le> sample_product (length ps) s \<or> 2 ^ 64 \<le> sample_quotient st (length ps) s
        then Inl Overflow
      else
        (let i = sample_index st (length ps) s
         in if length ps \<le> i + 1 then Inl OutOfRange
            else
              (case chain_tip (ps ! i) of
                 Inl e \<Rightarrow> Inl e
               | Inr p1 \<Rightarrow>
                  (case chain_tip (ps ! (i + 1)) of
                     Inl e \<Rightarrow> Inl e
                   | Inr p2 \<Rightarrow>
                      (let l = Vector2Double (vec_x p1 - vec_x p2) (vec_y p1 - vec_y p2)
                       in Inr (divergence + sqrt (vec_x l * vec_x l + vec_y l * vec_y l)))))))"

text \<open>
  The estimator. With no sample the final quotient is \<open>0.0 / 0\<close>, a NaN.
\<close>

definition GetDivergence :: "SimulationSettings \<Rightarrow> JoinedPendulum list \<Rightarrow> error + real" where
  "GetDivergence st ps =
     (if ps = [] then Inr 0
      else
        (case for_loop_err 0 (resetSamples st) (GetDivergence_body st ps) 0 of
           Inl e \<Rightarrow> Inl e
         | Inr divergence \<Rightarrow>
            (if resetSamples st = 0 then Inl NotANumber
             else Inr (divergence / real (resetSamples st)))))"

section \<open>The reset controller (\<open>GameUpdate\<close>, "Reset after divergence")\<close>

text \<open>
  The statics of the game the block reads and writes: \<open>divergence\<close> (\<open>None\<close> for a NaN),
  \<open>resets\<close>, \<open>initiatedReset\<close> (\<open>0.0\<close> when no reset is pending) and the population,
  the global \<open>pendulums\<close>.
\<close>

record Game =
  divergence :: "real option"
  resets :: int
  initiatedReset :: real
  population :: "JoinedPendulum list"

text \<open>
  The block from \<open>divergence = GetDivergence()\<close> to the end of "Reset calculation".
  \<open>now\<close> is the value of \<open>GetTime()\<close>, \<open>resetKey\<close> is
  \<open>IsKeyPressed(KEY_R) || IsKeyPressedRepeat(KEY_R)\<close> and \<open>continueKey\<close> is
  \<open>IsKeyDown(KEY_C)\<close>. A comparison with a NaN is false. \<open>resets\<close> is a 32-bit
  \<open>int\<close>, whose increment is undefined at the largest value.
\<close>

definition GameUpdate_reset ::
  "SimulationSettings \<Rightarrow> real \<Rightarrow> bool \<Rightarrow> bool \<Rightarrow> Game \<Rightarrow> error + Game" where
  "GameUpdate_reset st now resetKey continueKey gm0 =
     (case (case GetDivergence st (population gm0) of
              Inr d \<Rightarrow> Inr (Some d)
            | Inl NotANumber \<Rightarrow> Inr None
            | Inl e \<Rightarrow> Inl e) of
        Inl e \<Rightarrow> Inl e
      | Inr dv \<Rightarrow>
         (let gm = gm0\<lparr> divergence := dv \<rparr>
          in if initiatedReset gm \<noteq> 0
             then
               (if now \<ge> initiatedReset gm
                then
                  (if resets gm = 2 ^ 31 - 1 then Inl Overflow
                   else
                     (let gm = gm\<lparr> resets := resets gm + 1 \<rparr>
                      in (case InitializePendulums st (resets gm) of
                            Inl e \<Rightarrow> Inl e
                          | Inr ps \<Rightarrow> Inr (gm\<lparr> population := ps, initiatedReset := 0 \<rparr>))))
                else Inr gm)
             else
               (let diverged = (case divergence gm of Some d \<Rightarrow> d > resetThreshold st | None \<Rightarrow> False)
                in if \<not> continueKey \<and> (resetKey \<or> diverged)
                   then Inr (gm\<lparr> initiatedReset := now + resetFadeTime st \<rparr>)
                   else Inr gm)))"

section \<open>Notions of the properties\<close>

text \<open>
  The acceleration of the first and of the second body of the pair \<open>(p, q)\<close>, both
  segments read as they are given.
\<close>

definition pair_first :: "SimulationSettings \<Rightarrow> Pendulum \<Rightarrow> Pendulum \<Rightarrow> real" where
  "pair_first st p q =
     accel_first (gravity st) (angle p) (angle q) (mass p) (mass q) (lengthP p) (lengthP q)
       (angularVelocity p) (angularVelocity q)"

definition pair_second :: "SimulationSettings \<Rightarrow> Pendulum \<Rightarrow> Pendulum \<Rightarrow> real" where
  "pair_second st p q =
     accel_second (gravity st) (angle p) (angle q) (mass p) (mass q) (lengthP p) (lengthP q)
       (angularVelocity p) (angularVelocity q)"

text \<open>
  The acceleration field of segment \<open>j\<close> once the acceleration loop has run its first
  \<open>k\<close> iterations on the segments \<open>ps\<close>.
\<close>

definition accel_after :: "SimulationSettings \<Rightarrow> Pendulum list \<Rightarrow> nat \<Rightarrow> nat \<Rightarrow> real" where
  "accel_after st ps k j =
     (if j < k then pair_first st (ps ! j) (ps ! (j + 1))
      else if j = k \<and> 0 < k then pair_second st (ps ! (j - 1)) (ps ! j)
      else angularAcceleration (ps ! j))"

text \<open>
  The acceleration of segment \<open>i\<close> computed from the segments \<open>ps\<close> alone: the first
  body's of the pair \<open>(i, i + 1)\<close>, and for the last segment the second body's of the
  pair before it.
\<close>

definition snapshot_accel :: "SimulationSettings \<Rightarrow> Pendulum list \<Rightarrow> nat \<Rightarrow> real" where
  "snapshot_accel st ps i =
     (if i + 1 < length ps then pair_first st (ps ! i) (ps ! (i + 1))
      else pair_second st (ps ! (i - 1)) (ps ! i))"

text \<open>
  What is seen of a chain once \<open>k\<close> ticks have run on it: the tip position recorded at
  tick \<open>k\<close> (the position of the last segment after that tick), the trajectory buffer,
  its cursor and its oldest entry. \<open>None\<close> when a tick has failed.
\<close>

definition tip_after :: "SimulationSettings \<Rightarrow> nat \<Rightarrow> JoinedPendulum \<Rightarrow> Vector2Double option" where
  "tip_after st k jp =
     (case ticks st k jp of Inl e \<Rightarrow> None | Inr jp' \<Rightarrow> Some (position (last (pendulums jp'))))"

definition buffer_after :: "SimulationSettings \<Rightarrow> nat \<Rightarrow> JoinedPendulum \<Rightarrow> Vector2Double list option" where
  "buffer_after st k jp =
     (case ticks st k jp of Inl e \<Rightarrow> None | Inr jp' \<Rightarrow> Some (trajectories jp'))"

definition cursor_after :: "SimulationSettings \<Rightarrow> nat \<Rightarrow> JoinedPendulum \<Rightarrow> nat option" where
  "cursor_after st k jp =
     (case ticks st k jp of Inl e \<Rightarrow> None | Inr jp' \<Rightarrow> Some (trajectoryIndex jp'))"

definition oldest_after :: "SimulationSettings \<Rightarrow> nat \<Rightarrow> JoinedPendulum \<Rightarrow> Vector2Double option" where
  "oldest_after st k jp =
     (case ticks st k jp of Inl e \<Rightarrow> None | Inr jp' \<Rightarrow> Some (oldest_entry jp'))"

text \<open>
  The Euclidean distance between the tips, the positions of the last segments, of two
  chains.
\<close>

definition tip_distance :: "JoinedPendulum \<Rightarrow> JoinedPendulum \<Rightarrow> real" where
  "tip_distance c1 c2 =
     (let p1 = position (last (pendulums c1));
          p2 = position (last (pendulums c2))
      in sqrt ((vec_x p1 - vec_x p2)\<^sup>2 + (vec_y p1 - vec_y p2)\<^sup>2))"

section \<open>Concrete inputs\<close>

text \<open>
  Settings with gravity \<open>\<pi> / 2\<close> and a time step of 1, and three chains as the constructor
  builds them: one segment of length 150 and mass 10 at the angle \<open>\<pi>\<close> with a buffer of
  two points; two and three segments of length 1 and mass 1, at the angles
  \<open>\<pi> / 2, 0\<close> and \<open>\<pi> / 4, 0, \<pi> / 4\<close>, with a buffer of one point. The chain
  \<open>example_double_ticked\<close> is the one of two segments after one tick under these settings.
\<close>

definition example_settings :: SimulationSettings where
  "example_settings = SimulationSettings_default\<lparr> gravity := pi / 2, fixedDeltaTime := 1 \<rparr>"

definition example_single :: JoinedPendulum where
  "example_single =
     \<lparr> pendulums = [Pendulum_init 150 10 pi],
       trajectories = [Vector2Double 0 0, Vector2Double 0 0],
       trajectoryIndex = 0 \<rparr>"

definition example_double :: JoinedPendulum where
  "example_double =
     \<lparr> pendulums = [Pendulum_init 1 1 (pi / 2),
                      (Pendulum_init 1 1 0)\<lparr> position := Vector2Double 0 1 \<rparr>],
       trajectories = [Vector2Double 0 0],
       trajectoryIndex = 0 \<rparr>"

definition example_double_ticked :: JoinedPendulum where
  "example_double_ticked =
     \<lparr> pendulums =
         [\<lparr> position = Vector2Double 0 1, velocity = Vector2Double 0 0, lengthP = 1, mass = 1,
            angle = 0, angularVelocity = - (pi / 2), angularAcceleration = - (pi / 2) \<rparr>,
          \<lparr> position = Vector2Double 0 2, velocity = Vector2Double 0 0, lengthP = 1, mass = 1,
            angle = 0, angularVelocity = 0, angularAcceleration = 0 \<rparr>],
       trajectories = [Vector2Double 0 2],
       trajectoryIndex = 0 \<rparr>"

definition example_triple :: JoinedPendulum where
  "example_triple =
     \<lparr> pendulums = [Pendulum_init 1 1 (pi / 4),
                      (Pendulum_init 1 1 0)\<lparr> position := Vector2Double 0 1 \<rparr>,
                      (Pendulum_init 1 1 (pi / 4))\<lparr> position :=
                         Vector2Double (sin (pi / 4)) (1 + cos (pi / 4)) \<rparr>],
       trajectories = [Vector2Double 0 0],
       trajectoryIndex = 0 \<rparr>"

section \<open>Lemmas on the loops of a tick\<close>

lemma for_loop_fold: "for_loop i n body s = fold body [i..<n] s"
proof (induction i n body s rule: for_loop.induct)
  case (1 i n body s)
  show ?case
  proof (cases "i < n")
    case True
    with 1 show ?thesis
      by (subst for_loop.simps) (simp add: upt_conv_Cons)
  next
    case False
    then show ?thesis by (subst for_loop.simps) simp
  qed
qed

lemma for_loop_same [simp]: "for_loop i i body s = s"
  by (subst for_loop.simps) simp

lemma for_loop_Suc: "i \<le> n \<Longrightarrow> for_loop i (Suc n) body s = body n (for_loop i n body s)"
  by (simp add: for_loop_fold)

lemma for_loop_err_same [simp]: "for_loop_err i i body s = Inr s"
  by (subst for_loop_err.simps) simp

lemma for_loop_err_step:
  "i < n \<Longrightarrow> for_loop_err i n body s =
     (case body i s of Inl e \<Rightarrow> Inl e | Inr s' \<Rightarrow> for_loop_err (Suc i) n body s')"
  by (subst for_loop_err.simps) simp

lemma for_loop_err_Suc:
  "i \<le> n \<Longrightarrow> for_loop_err i (Suc n) body s =
     (case for_loop_err i n body s of Inl e \<Rightarrow> Inl e | Inr s' \<Rightarrow> body n s')"
proof (induction i n body s rule: for_loop_err.induct)
  case (1 i n body s)
  show ?case
  proof (cases "i < n")
    case True
    show ?thesis
    proof (cases "body i s")
      case (Inl e)
      with True show ?thesis by (simp add: for_loop_err_step)
    next
      case (Inr s')
      with True 1 show ?thesis by (simp add: for_loop_err_step)
    qed
  next
    case False
    with 1(2) have "i = n" by simp
    then show ?thesis by (simp add: for_loop_err_step split: sum.splits)
  qed
qed

lemma length_accel_body [simp]: "length (Update_accel_body st i ps) = length ps"
  by (simp add: Update_accel_body_def Let_def)

lemma length_accel_loop [simp]: "length (for_loop 0 k (Update_accel_body st) ps) = length ps"
  by (induction k) (simp_all add: for_loop_Suc)

lemma accel_body_nth:
  "Suc i < length qs \<Longrightarrow> j < length qs \<Longrightarrow>
   Update_accel_body st i qs ! j =
     (if j = i then (qs ! i)\<lparr> angularAcceleration := pair_first st (qs ! i) (qs ! Suc i) \<rparr>
      else if j = Suc i
        then (qs ! Suc i)\<lparr> angularAcceleration := pair_second st (qs ! i) (qs ! Suc i) \<rparr>
      else qs ! j)"
  by (simp add: Update_accel_body_def Let_def pair_first_def pair_second_def)

lemma accel_loop_nth:
  "k < length ps \<Longrightarrow> j < length ps \<Longrightarrow>
   for_loop 0 k (Update_accel_body st) ps ! j
     = (ps ! j)\<lparr> angularAcceleration := accel_after st ps k j \<rparr>"
proof (induction k arbitrary: j)
  case 0
  then show ?case by (simp add: accel_after_def)
next
  case (Suc k)
  let ?A = "for_loop 0 k (Update_accel_body st) ps"
  have k: "k < length ps" and k1: "Suc k < length ps" using Suc.prems by simp_all
  have Ak: "?A ! k = (ps ! k)\<lparr> angularAcceleration := accel_after st ps k k \<rparr>"
    using Suc.IH [OF k k] .
  have Ak1: "?A ! Suc k = (ps ! Suc k)\<lparr> angularAcceleration := accel_after st ps k (Suc k) \<rparr>"
    using Suc.IH [OF k k1] .
  have Aj: "?A ! j = (ps ! j)\<lparr> angularAcceleration := accel_after st ps k j \<rparr>"
    using Suc.IH [OF k Suc.prems(2)] .
  have step: "for_loop 0 (Suc k) (Update_accel_body st) ps ! j = Update_accel_body st k ?A ! j"
    by (simp add: for_loop_Suc)
  show ?case
    unfolding step using k1 Suc.prems(2)
    by (simp add: accel_body_nth Ak Ak1 Aj accel_after_def pair_first_def pair_second_def)
qed

lemma length_integrate_body [simp]: "length (Update_integrate_body st i ps) = length ps"
  by (simp add: Update_integrate_body_def Let_def)

lemma length_integrate_loop [simp]: "length (for_loop 0 k (Update_integrate_body st) ps) = length ps"
  by (induction k) (simp_all add: for_loop_Suc)

lemma integrate_body_other:
  "j \<noteq> i \<Longrightarrow> Update_integrate_body st i qs ! j = qs ! j"
  by (simp add: Update_integrate_body_def Let_def)

lemma integrate_body_self:
  assumes "i < length qs"
  shows "angularAcceleration (Update_integrate_body st i qs ! i) = angularAcceleration (qs ! i)"
    and "angularVelocity (Update_integrate_body st i qs ! i)
           = angularVelocity (qs ! i) + angularAcceleration (qs ! i) * fixedDeltaTime st"
    and "angle (Update_integrate_body st i qs ! i)
           = angle (qs ! i)
             + (angularVelocity (qs ! i) + angularAcceleration (qs ! i) * fixedDeltaTime st)
               * fixedDeltaTime st"
    and "mass (Update_integrate_body st i qs ! i) = mass (qs ! i)"
    and "lengthP (Update_integrate_body st i qs ! i) = lengthP (qs ! i)"
  using assms by (simp_all add: Update_integrate_body_def Let_def)

lemma integrate_loop_rest:
  "k \<le> j \<Longrightarrow> for_loop 0 k (Update_integrate_body st) qs ! j = qs ! j"
  by (induction k) (simp_all add: for_loop_Suc integrate_body_other)

lemma integrate_loop_done:
  "j < k \<Longrightarrow> k \<le> length qs \<Longrightarrow>
   for_loop 0 k (Update_integrate_body st) qs ! j
     = for_loop 0 (Suc j) (Update_integrate_body st) qs ! j"
proof (induction k)
  case 0
  then show ?case by simp
next
  case (Suc k)
  show ?case
  proof (cases "j = k")
    case True
    then show ?thesis by simp
  next
    case False
    with Suc.prems have "j < k" "k \<le> length qs" by simp_all
    with Suc.IH False show ?thesis
      by (simp add: for_loop_Suc [of 0 k] integrate_body_other)
  qed
qed

lemma integrate_loop_nth:
  assumes "j < k" "k \<le> length qs"
  shows "angularAcceleration (for_loop 0 k (Update_integrate_body st) qs ! j)
           = angularAcceleration (qs ! j)"
    and "angularVelocity (for_loop 0 k (Update_integrate_body st) qs ! j)
           = angularVelocity (qs ! j) + angularAcceleration (qs ! j) * fixedDeltaTime st"
    and "angle (for_loop 0 k (Update_integrate_body st) qs ! j)
           = angle (qs ! j)
             + (angularVelocity (qs ! j) + angularAcceleration (qs ! j) * fixedDeltaTime st)
               * fixedDeltaTime st"
    and "mass (for_loop 0 k (Update_integrate_body st) qs ! j) = mass (qs ! j)"
    and "lengthP (for_loop 0 k (Update_integrate_body st) qs ! j) = lengthP (qs ! j)"
proof -
  let ?B = "for_loop 0 j (Update_integrate_body st) qs"
  have j: "j < length ?B" using assms by simp
  have eq: "for_loop 0 k (Update_integrate_body st) qs ! j = Update_integrate_body st j ?B ! j"
    using assms by (simp add: integrate_loop_done for_loop_Suc)
  have rest: "?B ! j = qs ! j" by (simp add: integrate_loop_rest)
  show "angularAcceleration (for_loop 0 k (Update_integrate_body st) qs ! j)
           = angularAcceleration (qs ! j)"
    unfolding eq by (simp add: integrate_body_self(1) [OF j] rest)
  show "angularVelocity (for_loop 0 k (Update_integrate_body st) qs ! j)
           = angularVelocity (qs ! j) + angularAcceleration (qs ! j) * fixedDeltaTime st"
    unfolding eq by (simp add: integrate_body_self(2) [OF j] rest)
  show "angle (for_loop 0 k (Update_integrate_body st) qs ! j)
           = angle (qs ! j)
             + (angularVelocity (qs ! j) + angularAcceleration (qs ! j) * fixedDeltaTime st)
               * fixedDeltaTime st"
    unfolding eq by (simp add: integrate_body_self(3) [OF j] rest)
  show "mass (for_loop 0 k (Update_integrate_body st) qs ! j) = mass (qs ! j)"
    unfolding eq by (simp add: integrate_body_self(4) [OF j] rest)
  show "lengthP (for_loop 0 k (Update_integrate_body st) qs ! j) = lengthP (qs ! j)"
    unfolding eq by (simp add: integrate_body_self(5) [OF j] rest)
qed

lemma length_Update_loops [simp]: "length (Update_loops st ps) = length ps"
  by (simp add: Update_loops_def)

lemma Update_multi:
  assumes "2 \<le> length (pendulums jp)" "trajectoryIndex jp < length (trajectories jp)"
  shows "Update st jp =
     Inr (jp\<lparr> pendulums := Update_loops st (pendulums jp),
             trajectories := (trajectories jp)[trajectoryIndex jp :=
               position (last (Update_loops st (pendulums jp)))],
             trajectoryIndex := (trajectoryIndex jp + 1) mod length (trajectories jp) \<rparr>)"
proof -
  have "Update_loops st (pendulums jp) \<noteq> []"
    using assms(1) by (metis length_Update_loops length_0_conv not_numeral_le_zero)
  then have "Update_loops st (pendulums jp) ! (length (pendulums jp) - 1)
               = last (Update_loops st (pendulums jp))"
    by (simp add: last_conv_nth)
  moreover have "length (pendulums jp) \<noteq> 0" "length (pendulums jp) \<noteq> 1"
    using assms(1) by auto
  ultimately show ?thesis using assms(2) by (simp add: Update_def Let_def del: One_nat_def)
qed

lemma Update_loops_nth:
  assumes n: "2 \<le> length ps" and i: "i < length ps"
  shows "angularAcceleration (Update_loops st ps ! i) = snapshot_accel st ps i"
    and "angularVelocity (Update_loops st ps ! i)
           = angularVelocity (ps ! i) + snapshot_accel st ps i * fixedDeltaTime st"
    and "angle (Update_loops st ps ! i)
           = angle (ps ! i)
             + (angularVelocity (ps ! i) + snapshot_accel st ps i * fixedDeltaTime st)
               * fixedDeltaTime st"
    and "mass (Update_loops st ps ! i) = mass (ps ! i)"
    and "lengthP (Update_loops st ps ! i) = lengthP (ps ! i)"
proof -
  let ?n = "length ps"
  let ?A = "for_loop 0 (?n - 1) (Update_accel_body st) ps"
  have k: "?n - 1 < ?n" using n by simp
  have A: "?A ! i = (ps ! i)\<lparr> angularAcceleration := accel_after st ps (?n - 1) i \<rparr>"
    by (rule accel_loop_nth [OF k i])
  have acc: "accel_after st ps (?n - 1) i = snapshot_accel st ps i"
    using n i by (auto simp: accel_after_def snapshot_accel_def)
  have iA: "i < ?n" "?n \<le> length ?A" using i by simp_all
  have U: "Update_loops st ps ! i = for_loop 0 ?n (Update_integrate_body st) ?A ! i"
    by (simp only: Update_loops_def)
  show "angularAcceleration (Update_loops st ps ! i) = snapshot_accel st ps i"
    unfolding U integrate_loop_nth(1) [OF iA] A using acc by simp
  show "angularVelocity (Update_loops st ps ! i)
           = angularVelocity (ps ! i) + snapshot_accel st ps i * fixedDeltaTime st"
    unfolding U integrate_loop_nth(2) [OF iA] A using acc by simp
  show "angle (Update_loops st ps ! i)
           = angle (ps ! i)
             + (angularVelocity (ps ! i) + snapshot_accel st ps i * fixedDeltaTime st)
               * fixedDeltaTime st"
    unfolding U integrate_loop_nth(3) [OF iA] A using acc by simp
  show "mass (Update_loops st ps ! i) = mass (ps ! i)"
    unfolding U integrate_loop_nth(4) [OF iA] A by simp
  show "lengthP (Update_loops st ps ! i) = lengthP (ps ! i)"
    unfolding U integrate_loop_nth(5) [OF iA] A by simp
qed

section \<open>Lemmas on the constructor\<close>

lemma for_loop_ge [simp]: "n \<le> i \<Longrightarrow> for_loop i n body s = s"
  by (subst for_loop.simps) simp

lemma for_loop_preserves:
  assumes "\<And>i s. P s \<Longrightarrow> P (body i s)" and "P s"
  shows "P (for_loop i n body s)"
proof -
  have "P (fold body xs s)" for xs
    using assms(2) by (induction xs arbitrary: s) (simp_all add: assms(1))
  then show ?thesis by (simp add: for_loop_fold)
qed

lemma nth_list_update_total:
  "xs[i := v] ! j = (if i = j \<and> i < length xs then v else xs ! j)"
  by (cases "i < length xs") (auto simp: nth_list_update list_update_beyond)

lemma length_ctor_init_loop [simp]:
  "length (for_loop i k (ctor_init_body lengths masses initialAngles) ps) = length ps"
  by (rule for_loop_preserves) (simp_all add: ctor_init_body_def)

lemma ctor_init_loop_nth:
  "k \<le> length ps \<Longrightarrow>
   for_loop 0 k (ctor_init_body lengths masses initialAngles) ps ! j
     = (if j < k then Pendulum_init (lengths ! j) (masses ! j) (initialAngles ! j) else ps ! j)"
  by (induction k) (auto simp: for_loop_Suc ctor_init_body_def nth_list_update_total)

lemma ctor_connect_loop_keeps:
  "length (for_loop i k ctor_connect_body ps) = length ps
   \<and> (\<forall>j. angle (for_loop i k ctor_connect_body ps ! j) = angle (ps ! j)
          \<and> lengthP (for_loop i k ctor_connect_body ps ! j) = lengthP (ps ! j)
          \<and> mass (for_loop i k ctor_connect_body ps ! j) = mass (ps ! j)
          \<and> angularVelocity (for_loop i k ctor_connect_body ps ! j) = angularVelocity (ps ! j)
          \<and> angularAcceleration (for_loop i k ctor_connect_body ps ! j) = angularAcceleration (ps ! j))"
  by (rule for_loop_preserves [where P = "\<lambda>s. length s = length ps
       \<and> (\<forall>j. angle (s ! j) = angle (ps ! j) \<and> lengthP (s ! j) = lengthP (ps ! j)
            \<and> mass (s ! j) = mass (ps ! j) \<and> angularVelocity (s ! j) = angularVelocity (ps ! j)
            \<and> angularAcceleration (s ! j) = angularAcceleration (ps ! j))"])
     (simp_all add: ctor_connect_body_def Let_def nth_list_update_total)

lemma ctor_ok:
  assumes "length lengths = sz" "length masses = sz" "length initialAngles = sz"
  obtains jp where "JoinedPendulum_ctor sz lengths masses initialAngles trajectoriesSize = Inr jp"
    and "length (pendulums jp) = sz"
    and "trajectories jp = replicate trajectoriesSize (Vector2Double 0 0)"
    and "trajectoryIndex jp = 0"
    and "\<And>j. j < sz \<Longrightarrow> angle (pendulums jp ! j) = initialAngles ! j"
    and "\<And>j. j < sz \<Longrightarrow> lengthP (pendulums jp ! j) = lengths ! j"
    and "\<And>j. j < sz \<Longrightarrow> mass (pendulums jp ! j) = masses ! j"
    and "\<And>j. j < sz \<Longrightarrow> angularVelocity (pendulums jp ! j) = 0"
proof -
  let ?ps1 = "for_loop 0 sz (ctor_init_body lengths masses initialAngles)
                (replicate sz Pendulum_default)"
  let ?jp = "\<lparr> pendulums = for_loop 1 sz ctor_connect_body ?ps1,
               trajectories = replicate trajectoriesSize (Vector2Double 0 0),
               trajectoryIndex = 0 \<rparr>"
  have eq: "JoinedPendulum_ctor sz lengths masses initialAngles trajectoriesSize = Inr ?jp"
    using assms by (simp add: JoinedPendulum_ctor_def Let_def)
  have nth1: "?ps1 ! j = Pendulum_init (lengths ! j) (masses ! j) (initialAngles ! j)"
    if "j < sz" for j
    using that by (simp add: ctor_init_loop_nth)
  note keep = ctor_connect_loop_keeps [of 1 sz ?ps1]
  show thesis
  proof (rule that [OF eq])
    show "length (pendulums ?jp) = sz" using keep by simp
    show "trajectories ?jp = replicate trajectoriesSize (Vector2Double 0 0)" by simp
    show "trajectoryIndex ?jp = 0" by simp
    show "angle (pendulums ?jp ! j) = initialAngles ! j" if "j < sz" for j
      using keep nth1 [OF that] by (simp add: Pendulum_init_def)
    show "lengthP (pendulums ?jp ! j) = lengths ! j" if "j < sz" for j
      using keep nth1 [OF that] by (simp add: Pendulum_init_def)
    show "mass (pendulums ?jp ! j) = masses ! j" if "j < sz" for j
      using keep nth1 [OF that] by (simp add: Pendulum_init_def)
    show "angularVelocity (pendulums ?jp ! j) = 0" if "j < sz" for j
      using keep nth1 [OF that] by (simp add: Pendulum_init_def)
  qed
qed

section \<open>Lemmas on the integrator\<close>

lemma Update_single_case:
  assumes "length (pendulums jp) = 1"
  shows "Update st jp = Inr (jp\<lparr> pendulums := [Update_single st (pendulums jp ! 0)] \<rparr>)"
proof -
  from assms obtain p where "pendulums jp = [p]"
    by (cases "pendulums jp") auto
  then show ?thesis by (simp add: Update_def)
qed

lemma ticks_snoc:
  "ticks st (Suc k) jp = (case ticks st k jp of Inl e \<Rightarrow> Inl e | Inr jp' \<Rightarrow> Update st jp')"
proof (induction k arbitrary: jp)
  case 0
  show ?case by (simp split: sum.splits)
next
  case (Suc k)
  show ?case
  proof (cases "Update st jp")
    case (Inl e)
    then show ?thesis by simp
  next
    case (Inr j1)
    have a: "ticks st (Suc k) jp = ticks st k j1" using Inr by simp
    have b: "ticks st (Suc (Suc k)) jp = ticks st (Suc k) j1" using Inr by simp
    show ?thesis unfolding b a by (rule Suc.IH)
  qed
qed

lemma mod_neq_close:
  fixes a b c :: nat
  assumes "a < b" "b < a + c"
  shows "a mod c \<noteq> b mod c"
proof
  assume "a mod c = b mod c"
  then have "c dvd b - a"
    using assms(1) by (metis mod_eq_dvd_iff_nat less_imp_le_nat)
  moreover have "0 < b - a" "b - a < c" using assms by simp_all
  ultimately show False by (meson dvd_imp_le not_less)
qed

lemma ticks_trajectory:
  assumes n: "2 \<le> length (pendulums jp)" and c: "trajectoryIndex jp < length (trajectories jp)"
  shows "\<exists>jp'. ticks st k jp = Inr jp'
     \<and> length (pendulums jp') = length (pendulums jp)
     \<and> length (trajectories jp') = length (trajectories jp)
     \<and> trajectoryIndex jp' = (trajectoryIndex jp + k) mod length (trajectories jp)
     \<and> (\<forall>m. 1 \<le> m \<and> m \<le> k \<and> k < m + length (trajectories jp) \<longrightarrow>
           (\<exists>jm. ticks st m jp = Inr jm
              \<and> trajectories jp' ! ((trajectoryIndex jp + m - 1) mod length (trajectories jp))
                   = position (last (pendulums jm))))"
proof (induction k)
  case 0
  then show ?case using c by auto
next
  case (Suc k)
  let ?c = "length (trajectories jp)"
  let ?x = "trajectoryIndex jp"
  from Suc obtain jk where jk: "ticks st k jp = Inr jk"
    and len: "length (pendulums jk) = length (pendulums jp)"
    and cap: "length (trajectories jk) = ?c"
    and cur: "trajectoryIndex jk = (?x + k) mod ?c"
    and old: "\<And>m. 1 \<le> m \<Longrightarrow> m \<le> k \<Longrightarrow> k < m + ?c \<Longrightarrow>
           \<exists>jm. ticks st m jp = Inr jm
              \<and> trajectories jk ! ((?x + m - 1) mod ?c) = position (last (pendulums jm))"
    by blast
  have cpos: "0 < ?c" using c by linarith
  have n': "2 \<le> length (pendulums jk)" using n len by simp
  have c': "trajectoryIndex jk < length (trajectories jk)" using cur cap cpos by simp
  let ?jn = "jk\<lparr> pendulums := Update_loops st (pendulums jk),
             trajectories := (trajectories jk)[trajectoryIndex jk :=
               position (last (Update_loops st (pendulums jk)))],
             trajectoryIndex := (trajectoryIndex jk + 1) mod length (trajectories jk) \<rparr>"
  have up: "Update st jk = Inr ?jn" by (rule Update_multi [OF n' c'])
  have tk: "ticks st (Suc k) jp = Inr ?jn" unfolding ticks_snoc jk by (simp add: up)
  have slots: "\<exists>jm. ticks st m jp = Inr jm
              \<and> trajectories ?jn ! ((?x + m - 1) mod ?c) = position (last (pendulums jm))"
    if m: "1 \<le> m" "m \<le> Suc k" "Suc k < m + ?c" for m
  proof (cases "m = Suc k")
    case True
    have "trajectories ?jn ! ((?x + m - 1) mod ?c) = position (last (pendulums ?jn))"
      using True c' cur by simp
    with tk True show ?thesis by simp
  next
    case False
    with m have mk: "m \<le> k" "k < m + ?c" by simp_all
    from old [OF m(1) mk] obtain jm where jm: "ticks st m jp = Inr jm"
      "trajectories jk ! ((?x + m - 1) mod ?c) = position (last (pendulums jm))" by blast
    have "(?x + m - 1) mod ?c \<noteq> (?x + k) mod ?c"
      using m(1) mk m(3) by (intro mod_neq_close) simp_all
    then have "trajectories ?jn ! ((?x + m - 1) mod ?c) = trajectories jk ! ((?x + m - 1) mod ?c)"
      using cur by simp
    with jm show ?thesis by simp
  qed
  have "trajectoryIndex ?jn = (?x + Suc k) mod ?c"
    using cur cap by (simp add: mod_Suc_eq)
  with tk len cap slots show ?case by simp
qed

section \<open>Lemmas on ticks and concrete chains\<close>

lemma example_single_constructed:
  "JoinedPendulum_ctor 1 [150] [10] [pi] 2 = Inr example_single"
  by (simp add: JoinedPendulum_ctor_def example_single_def for_loop.simps ctor_init_body_def
        Pendulum_default_def Pendulum_init_def numeral_2_eq_2)

lemma example_double_constructed:
  "JoinedPendulum_ctor 2 [1, 1] [1, 1] [pi / 2, 0] 1 = Inr example_double"
  by (simp add: JoinedPendulum_ctor_def example_double_def for_loop.simps ctor_init_body_def
        ctor_connect_body_def Let_def Pendulum_default_def Pendulum_init_def numeral_2_eq_2)

lemma example_triple_constructed:
  "JoinedPendulum_ctor 3 [1, 1, 1] [1, 1, 1] [pi / 4, 0, pi / 4] 1 = Inr example_triple"
  by (simp add: JoinedPendulum_ctor_def example_triple_def for_loop.simps ctor_init_body_def
        ctor_connect_body_def Let_def Pendulum_default_def Pendulum_init_def numeral_3_eq_3)

lemma example_single_tick:
  "Update st example_single =
     Inr (example_single\<lparr> pendulums := [(Pendulum_init 150 10 pi)\<lparr> position := Vector2Double 0 (- 150) \<rparr>] \<rparr>)"
  by (simp add: Update_def example_single_def Update_single_def Pendulum_init_def)

lemmas tick_eval =
  Update_def Update_loops_def Update_single_def for_loop.simps Update_accel_body_def
  Update_integrate_body_def accel_first_def accel_second_def Let_def Pendulum_init_def
  example_settings_def SimulationSettings_default_def

lemma example_double_tick1:
  "Update example_settings example_double = Inr example_double_ticked"
  by (simp add: tick_eval example_double_def example_double_ticked_def)

lemma example_double_tick2:
  "Update example_settings example_double_ticked =
     Inr \<lparr> pendulums =
             [\<lparr> position = Vector2Double (- 1) 0, velocity = Vector2Double 0 0, lengthP = 1, mass = 1,
                angle = - (pi / 2), angularVelocity = - (pi / 2), angularAcceleration = 0 \<rparr>,
              \<lparr> position = Vector2Double (- 1) 1, velocity = Vector2Double 0 0, lengthP = 1, mass = 1,
                angle = 0, angularVelocity = 0, angularAcceleration = 0 \<rparr>],
           trajectories = [Vector2Double (- 1) 1],
           trajectoryIndex = 0 \<rparr>"
  by (simp add: tick_eval example_double_ticked_def)

lemma example_triple_pairs:
  "pair_second example_settings (pendulums example_triple ! 0) (pendulums example_triple ! Suc 0)
     = pi / 3"
  "pair_first example_settings (pendulums example_triple ! Suc 0)
     (pendulums example_triple ! Suc (Suc 0)) = pi / 6"
  by (simp_all add: pair_first_def pair_second_def tick_eval example_triple_def sin_45 cos_45)

section \<open>Lemmas on the estimator and the seeding\<close>

lemma round_even_ge: "\<lfloor>x\<rfloor> \<le> round_even x"
  by (simp add: round_even_def Let_def)

lemma round_even_of_int [simp]: "round_even (of_int n) = n"
  by (simp add: round_even_def)

lemma round_even_less:
  assumes "x < of_int N" "1 / 2 < of_int N - x"
  shows "round_even x < N"
proof -
  have f: "\<lfloor>x\<rfloor> < N" using assms(1) by (simp add: floor_less_iff)
  show ?thesis
  proof (cases "\<lfloor>x\<rfloor> = N - 1")
    case True
    then have "x - of_int \<lfloor>x\<rfloor> < 1 / 2" using assms(2) by simp
    then show ?thesis using True by (simp add: round_even_def Let_def)
  next
    case False
    with f have "\<lfloor>x\<rfloor> + 1 < N" by simp
    then show ?thesis by (simp add: round_even_def Let_def)
  qed
qed

lemma float_round_scaled:
  assumes x: "0 < x" and e: "\<lfloor>log 2 x\<rfloor> = 23 - int n"
  shows "float_round x = of_int (round_even (x * 2 ^ n)) / 2 ^ n"
proof -
  have a: "\<bar>x\<bar> = x" using x by simp
  have ee: "real_of_int (\<lfloor>log 2 \<bar>x\<bar>\<rfloor> - 23) = - real n" unfolding a e by simp
  have p: "2 powr real_of_int (\<lfloor>log 2 \<bar>x\<bar>\<rfloor> - 23) = 1 / 2 ^ n"
    unfolding ee by (simp add: powr_minus powr_realpow inverse_eq_divide)
  have "float_round x = of_int (round_even (x / (1 / 2 ^ n))) * (1 / 2 ^ n)"
    using x unfolding float_round_def Let_def p by simp
  then show ?thesis by simp
qed

lemma floor_log2_bounds:
  assumes "0 < x"
  shows "2 powr of_int \<lfloor>log 2 x\<rfloor> \<le> x" "x < 2 powr (of_int \<lfloor>log 2 x\<rfloor> + 1)"
  using floor_log_eq_powr_iff [of x 2 "\<lfloor>log 2 x\<rfloor>"] assms by simp_all

lemma floor_log2_small:
  assumes "0 < x" "x < 2 ^ 24"
  obtains k :: nat where "\<lfloor>log 2 x\<rfloor> = 23 - int k"
proof -
  let ?e = "\<lfloor>log 2 x\<rfloor>"
  have "2 powr of_int ?e \<le> x" by (rule floor_log2_bounds [OF assms(1)])
  also have "x < 2 powr 24" using assms(2) by (simp add: powr_numeral)
  finally have "2 powr of_int ?e < (2::real) powr 24" .
  moreover have one: "(1::real) < 2" by simp
  ultimately have "of_int ?e < (24::real)" using powr_less_cancel_iff [OF one] by blast
  then have "0 \<le> 23 - ?e" by linarith
  then have "?e = 23 - int (nat (23 - ?e))" by simp
  then show thesis by (rule that)
qed

lemma float_round_nat:
  assumes "n < 2 ^ 24"
  shows "float_round (real n) = real n"
proof (cases "n = 0")
  case True
  then show ?thesis by (simp add: float_round_def)
next
  case False
  then have x: "0 < real n" by simp
  have "real n < 2 ^ 24" using assms by (metis of_nat_less_iff of_nat_numeral of_nat_power)
  from floor_log2_small [OF x this] obtain k where k: "\<lfloor>log 2 (real n)\<rfloor> = 23 - int k" .
  have "real n * 2 ^ k = of_int (int (n * 2 ^ k))" by simp
  then have "round_even (real n * 2 ^ k) = int (n * 2 ^ k)" by (simp only: round_even_of_int)
  then show ?thesis by (simp add: float_round_scaled [OF x k])
qed


lemma float_round_quotient:
  fixes a b :: nat
  assumes a: "a < 2 ^ 24" and b: "1 \<le> b"
  shows "real (a div b) \<le> float_round (real a / real b)"
    and "float_round (real a / real b) < real (a div b) + 1"
proof -
  let ?q = "real a / real b"
  let ?k = "a div b"
  have bpos: "0 < real b" using b by simp
  have lo: "real ?k \<le> ?q"
  proof -
    have "?k * b \<le> a" by simp
    then have "real (?k * b) \<le> real a" by (simp only: of_nat_le_iff)
    then have "real ?k * real b \<le> real a" by simp
    then show ?thesis using bpos by (simp add: pos_le_divide_eq)
  qed
  have up: "1 / real b \<le> real ?k + 1 - ?q"
  proof -
    have "0 < b" using b by simp
    then have "a < (?k + 1) * b" using div_less_iff_less_mult [of b a "?k + 1"] by simp
    then have "a + 1 \<le> (?k + 1) * b" by simp
    then have "real (a + 1) \<le> real ((?k + 1) * b)" by (simp only: of_nat_le_iff)
    then have "real a + 1 \<le> (real ?k + 1) * real b" by (simp add: algebra_simps)
    then have "(real a + 1) / real b \<le> real ?k + 1" using bpos by (simp add: pos_divide_le_eq)
    then show ?thesis by (simp add: add_divide_distrib)
  qed
  have both: "real ?k \<le> float_round ?q \<and> float_round ?q < real ?k + 1"
  proof (cases "a = 0")
    case True
    then show ?thesis by (simp add: float_round_def)
  next
    case False
    then have q: "0 < ?q" using bpos by simp
    have "1 \<le> real b" using b by simp
    then have "real a \<le> real a * real b" by (simp add: mult_le_cancel_left1)
    then have "?q \<le> real a" using bpos by (simp add: pos_divide_le_eq)
    also have "real a < 2 ^ 24" using a by (metis of_nat_less_iff of_nat_numeral of_nat_power)
    finally have q24: "?q < 2 ^ 24" .
    from floor_log2_small [OF q q24] obtain n where n: "\<lfloor>log 2 ?q\<rfloor> = 23 - int n" .
    let ?P = "(2::real) ^ n"
    have fr: "float_round ?q = of_int (round_even (?q * ?P)) / ?P"
      by (rule float_round_scaled [OF q n])
    have Ppos: "0 < ?P" by simp
    \<comment> \<open>the divisor is below two units of the scaled grid\<close>
    have "2 powr of_int \<lfloor>log 2 ?q\<rfloor> \<le> ?q" by (rule floor_log2_bounds [OF q])
    moreover have "2 powr of_int \<lfloor>log 2 ?q\<rfloor> = 2 ^ 23 / ?P"
      unfolding n by (simp add: powr_diff powr_realpow powr_numeral)
    ultimately have "2 ^ 23 / ?P \<le> real a / real b" by simp
    then have "2 ^ 23 * real b \<le> real a * ?P"
      using bpos Ppos by (simp add: field_simps)
    also have "real a * ?P < 2 ^ 24 * ?P"
      using \<open>real a < 2 ^ 24\<close> Ppos by simp
    finally have b2P: "real b < 2 * ?P" by simp
    \<comment> \<open>lower bound\<close>
    have e1: "real_of_int (int ?k * 2 ^ n) = real ?k * ?P" by simp
    have "real ?k * ?P \<le> ?q * ?P" using lo Ppos by (intro mult_right_mono) simp_all
    then have "of_int (int ?k * 2 ^ n) \<le> ?q * ?P" unfolding e1 .
    then have "int ?k * 2 ^ n \<le> \<lfloor>?q * ?P\<rfloor>" by (simp only: le_floor_iff)
    also have "\<dots> \<le> round_even (?q * ?P)" by (rule round_even_ge)
    finally have "real_of_int (int ?k * 2 ^ n) \<le> of_int (round_even (?q * ?P))" by linarith
    then have l: "real ?k \<le> float_round ?q" unfolding fr e1 using Ppos by (simp only: pos_le_divide_eq)
    \<comment> \<open>upper bound\<close>
    have x1: "?q * ?P < of_int ((int ?k + 1) * 2 ^ n)"
    proof -
      have "0 < 1 / real b" using bpos by simp
      with up have "?q < real ?k + 1" by linarith
      then have "?q * ?P < (real ?k + 1) * ?P" using Ppos by (simp only: mult_less_cancel_right_pos)
      moreover have "real_of_int ((int ?k + 1) * 2 ^ n) = (real ?k + 1) * ?P" by simp
      ultimately show ?thesis by (simp only:)
    qed
    have x2: "1 / 2 < of_int ((int ?k + 1) * 2 ^ n) - ?q * ?P"
    proof -
      have "1 / 2 < ?P / real b" using b2P bpos by (simp add: field_simps)
      also have "\<dots> = (1 / real b) * ?P" by simp
      also have "\<dots> \<le> (real ?k + 1 - ?q) * ?P" using up Ppos by (simp only: mult_le_cancel_right_pos)
      finally have "1 / 2 < (real ?k + 1) * ?P - ?q * ?P" by (simp add: algebra_simps)
      moreover have "real_of_int ((int ?k + 1) * 2 ^ n) = (real ?k + 1) * ?P" by simp
      ultimately show ?thesis by (simp only:)
    qed
    have "round_even (?q * ?P) < (int ?k + 1) * 2 ^ n" by (rule round_even_less [OF x1 x2])
    then have "real_of_int (round_even (?q * ?P)) < of_int ((int ?k + 1) * 2 ^ n)" by linarith
    moreover have "real_of_int ((int ?k + 1) * 2 ^ n) = (real ?k + 1) * ?P" by simp
    ultimately have "real_of_int (round_even (?q * ?P)) < (real ?k + 1) * ?P" by (simp only:)
    then have u: "float_round ?q < real ?k + 1" unfolding fr using Ppos by (simp only: pos_divide_less_eq)
    from l u show ?thesis ..
  qed
  from both show "real (a div b) \<le> float_round (real a / real b)" ..
  from both show "float_round (real a / real b) < real (a div b) + 1" ..
qed


lemma float_round_nat_wide:
  assumes "2 ^ 24 \<le> n" "n < 2 ^ 25"
  shows "float_round (real n) = 2 * of_int (round_even (real n / 2))"
proof -
  have lo: "(2::real) ^ 24 \<le> real n"
  proof -
    have "real ((2::nat) ^ 24) \<le> real n" using assms(1) by (simp only: of_nat_le_iff)
    then show ?thesis by simp
  qed
  have hi: "real n < 2 ^ 25"
  proof -
    have "real n < real ((2::nat) ^ 25)" using assms(2) by (simp only: of_nat_less_iff)
    then show ?thesis by simp
  qed
  have x: "0 < real n" using lo by simp
  have "(2::real) powr real_of_int 24 \<le> real n" using lo by (simp add: powr_numeral)
  moreover have "real n < 2 powr real_of_int (24 + 1)" using hi by (simp add: powr_numeral)
  ultimately have "\<lfloor>log 2 (real n)\<rfloor> = 24"
    using floor_log_eq_powr_iff [of "real n" 2 24] x by simp
  then have e: "\<lfloor>log 2 \<bar>real n\<bar>\<rfloor> - 23 = 1" by simp
  have "float_round (real n)
          = of_int (round_even (real n / 2 powr of_int 1)) * 2 powr of_int 1"
    using x unfolding float_round_def Let_def e by simp
  then show ?thesis by simp
qed

lemma float_round_0 [simp]: "float_round 0 = 0"
  by (simp add: float_round_def)

lemma float_round_1 [simp]: "float_round 1 = 1"
  using float_round_nat [of 1] by simp

lemma float_round_numeral:
  "(numeral k :: nat) < 2 ^ 24 \<Longrightarrow> float_round (numeral k) = numeral k"
  using float_round_nat [of "numeral k"] by simp

lemma float_round_numeral_wide:
  "(2::nat) ^ 24 \<le> numeral k \<Longrightarrow> (numeral k :: nat) < 2 ^ 25 \<Longrightarrow>
   float_round (numeral k) = 2 * of_int (round_even (numeral k / 2))"
  using float_round_nat_wide [of "numeral k"] by simp

lemma sample_exact:
  assumes "s * count < 2 ^ 24" "s < 2 ^ 24" "count < 2 ^ 24" "resetSamples st + 1 < 2 ^ 24"
  shows "sample_product count s = real (s * count)"
    and "real ((s * count) div (resetSamples st + 1)) \<le> sample_quotient st count s"
    and "sample_quotient st count s < real ((s * count) div (resetSamples st + 1)) + 1"
proof -
  have d: "(resetSamples st + 1) mod 2 ^ 64 = resetSamples st + 1"
    using assms(4) by simp
  show p: "sample_product count s = real (s * count)"
    unfolding sample_product_def float_round_nat [OF assms(2)] float_round_nat [OF assms(3)]
    using float_round_nat [OF assms(1)] by simp
  have q: "sample_quotient st count s = float_round (real (s * count) / real (resetSamples st + 1))"
    unfolding sample_quotient_def p d float_round_nat [OF assms(4)] ..
  have one: "1 \<le> resetSamples st + 1" by simp
  show "real ((s * count) div (resetSamples st + 1)) \<le> sample_quotient st count s"
    unfolding q by (rule float_round_quotient(1) [OF assms(1) one])
  show "sample_quotient st count s < real ((s * count) div (resetSamples st + 1)) + 1"
    unfolding q by (rule float_round_quotient(2) [OF assms(1) one])
qed

lemma sample_index_div:
  assumes "s * count < 2 ^ 24" "s < 2 ^ 24" "count < 2 ^ 24" "resetSamples st + 1 < 2 ^ 24"
  shows "sample_index st count s = (s * count) div (resetSamples st + 1)"
proof -
  have "\<lfloor>sample_quotient st count s\<rfloor> = int ((s * count) div (resetSamples st + 1))"
    using sample_exact(2,3) [OF assms] by (simp add: floor_unique)
  then show ?thesis by (simp add: sample_index_def)
qed

lemma sample_no_overflow:
  assumes "s * count < 2 ^ 24" "s < 2 ^ 24" "count < 2 ^ 24" "resetSamples st + 1 < 2 ^ 24"
  shows "\<not> (2 ^ 128 \<le> sample_product count s \<or> 2 ^ 64 \<le> sample_quotient st count s)"
proof -
  have a: "real (s * count) < 2 ^ 24"
  proof -
    have "real (s * count) < real ((2::nat) ^ 24)" using assms(1) by (simp only: of_nat_less_iff)
    then show ?thesis by simp
  qed
  have "(s * count) div (resetSamples st + 1) \<le> s * count" by (rule div_le_dividend)
  then have "real ((s * count) div (resetSamples st + 1)) \<le> real (s * count)"
    by (simp only: of_nat_le_iff)
  with sample_exact(3) [OF assms] a have "sample_quotient st count s < 2 ^ 24 + 1" by linarith
  moreover have "(2::real) ^ 24 + 1 \<le> 2 ^ 64" by simp
  moreover have "(2::real) ^ 24 \<le> 2 ^ 128" by simp
  ultimately show ?thesis using a sample_exact(1) [OF assms] by linarith
qed

lemma sample_regime:
  assumes s: "s < resetSamples st" and x: "resetSamples st * count < 2 ^ 24" and c: "2 \<le> count"
  shows "s * count < 2 ^ 24" "s < 2 ^ 24" "count < 2 ^ 24" "resetSamples st + 1 < 2 ^ 24"
proof -
  let ?r = "resetSamples st"
  have r: "1 \<le> ?r" using s by simp
  have a1: "s * count \<le> ?r * count" using s by (intro mult_le_mono1) simp
  have a2: "?r * 2 \<le> ?r * count" using c by (intro mult_le_mono2) simp
  have a3: "1 * count \<le> ?r * count" using r by (intro mult_le_mono1) simp
  show "s * count < 2 ^ 24" using a1 x by linarith
  show "s < 2 ^ 24" using a2 x s by linarith
  show "count < 2 ^ 24" using a3 x by linarith
  show "?r + 1 < 2 ^ 24" using a2 x r by linarith
qed

lemma GetDivergence_body_exact:
  assumes "s * length ps < 2 ^ 24" "s < 2 ^ 24" "length ps < 2 ^ 24" "resetSamples st + 1 < 2 ^ 24"
  shows "GetDivergence_body st ps s d =
     (if length ps \<le> (s * length ps) div (resetSamples st + 1) + 1 then Inl OutOfRange
      else
        (case chain_tip (ps ! ((s * length ps) div (resetSamples st + 1))) of
           Inl e \<Rightarrow> Inl e
         | Inr p1 \<Rightarrow>
            (case chain_tip (ps ! ((s * length ps) div (resetSamples st + 1) + 1)) of
               Inl e \<Rightarrow> Inl e
             | Inr p2 \<Rightarrow>
                Inr (d + sqrt ((vec_x p1 - vec_x p2) * (vec_x p1 - vec_x p2)
                               + (vec_y p1 - vec_y p2) * (vec_y p1 - vec_y p2))))))"
proof -
  have i: "sample_index st (length ps) s = (s * length ps) div (resetSamples st + 1)"
    by (rule sample_index_div [OF assms])
  have o: "(2 ^ 128 \<le> sample_product (length ps) s \<or> 2 ^ 64 \<le> sample_quotient st (length ps) s)
             = False"
    using sample_no_overflow [OF assms] by simp
  have z: "((resetSamples st + 1) mod 2 ^ 64 = 0) = False" using assms(4) by simp
  show ?thesis
    unfolding GetDivergence_body_def i o z Let_def
    by (simp only: if_False Vector2Double.sel)
qed

lemma sample_bound_core:
  fixes r' m' :: nat
  shows "r' * Suc m' < m' * (r' + 2) \<longleftrightarrow> r' < 2 * m'"
proof -
  have a: "r' * Suc m' = r' * m' + r'" by simp
  have b: "m' * (r' + 2) = r' * m' + 2 * m'" by (simp add: algebra_simps)
  show ?thesis unfolding a b by (rule nat_add_left_cancel_less)
qed

lemma sample_in_range:
  fixes r m s :: nat
  assumes "s < r" "r + 2 \<le> 2 * m"
  shows "(s * m) div (r + 1) + 1 < m"
proof -
  from assms obtain r' where r: "r = Suc r'" by (cases r) auto
  from assms obtain m' where m: "m = Suc m'" by (cases m) auto
  have "s * m \<le> r' * m" using assms(1) r by (intro mult_le_mono1) simp
  moreover have "r' * m < m' * (r + 1)"
  proof -
    have "r' < 2 * m'" using assms(2) r m by linarith
    then have "r' * Suc m' < m' * (r' + 2)" by (simp only: sample_bound_core)
    moreover have "r' * m = r' * Suc m'" "m' * (r + 1) = m' * (r' + 2)" using r m by simp_all
    ultimately show ?thesis by (simp only:)
  qed
  ultimately have "s * m < m' * (r + 1)" by linarith
  then have "(s * m) div (r + 1) < m'"
    by (simp add: div_less_iff_less_mult)
  then show ?thesis using m by simp
qed

lemma sample_out_of_range:
  fixes r m :: nat
  assumes "1 \<le> r" "\<not> r + 2 \<le> 2 * m"
  shows "\<not> ((r - 1) * m) div (r + 1) + 1 < m"
proof
  assume a: "((r - 1) * m) div (r + 1) + 1 < m"
  from assms obtain r' where r: "r = Suc r'" by (cases r) auto
  from a obtain m' where m: "m = Suc m'" by (cases m) auto
  from a have "(r' * m) div (r + 1) < m'" using r m by simp
  then have "r' * m < m' * (r + 1)"
    by (simp add: div_less_iff_less_mult)
  moreover have "r' * m = r' * Suc m'" "m' * (r + 1) = m' * (r' + 2)" using r m by simp_all
  ultimately have "r' * Suc m' < m' * (r' + 2)" by (simp only:)
  then have "r' < 2 * m'" by (simp only: sample_bound_core)
  with assms(2) r m show False by linarith
qed

lemma GetDivergence_body_in_range:
  assumes x: "resetSamples st * length ps < 2 ^ 24"
    and s: "s < resetSamples st"
    and r: "resetSamples st + 2 \<le> 2 * length ps"
    and ne: "\<forall>c\<in>set ps. pendulums c \<noteq> []"
  shows "GetDivergence_body st ps s d =
     Inr (d + tip_distance (ps ! ((s * length ps) div (resetSamples st + 1)))
                            (ps ! ((s * length ps) div (resetSamples st + 1) + 1)))"
proof -
  let ?i = "(s * length ps) div (resetSamples st + 1)"
  have c: "2 \<le> length ps" using s r by linarith
  note g = sample_regime [OF s x c]
  have b: "?i + 1 < length ps" by (rule sample_in_range [OF s r])
  then have "ps ! ?i \<in> set ps" "ps ! (?i + 1) \<in> set ps" by simp_all
  with ne have t: "chain_tip (ps ! ?i) = Inr (position (last (pendulums (ps ! ?i))))"
    "chain_tip (ps ! (?i + 1)) = Inr (position (last (pendulums (ps ! (?i + 1)))))"
    by (simp_all add: chain_tip_def)
  have nb: "\<not> length ps \<le> ?i + 1" using b by simp
  show ?thesis
    unfolding GetDivergence_body_exact [OF g]
    by (simp only: nb if_False t sum.case tip_distance_def Let_def power2_eq_square)
qed

lemma GetDivergence_loop:
  assumes w: "resetSamples st * length ps < 2 ^ 24"
    and r: "resetSamples st + 2 \<le> 2 * length ps"
    and ne: "\<forall>c\<in>set ps. pendulums c \<noteq> []"
  shows "k \<le> resetSamples st \<Longrightarrow>
     for_loop_err 0 k (GetDivergence_body st ps) 0 =
       Inr (\<Sum>s<k. tip_distance (ps ! ((s * length ps) div (resetSamples st + 1)))
                                 (ps ! ((s * length ps) div (resetSamples st + 1) + 1)))"
proof (induction k)
  case 0
  show ?case by simp
next
  case (Suc k)
  then have k: "k < resetSamples st" and IH: "for_loop_err 0 k (GetDivergence_body st ps) 0 =
       Inr (\<Sum>s<k. tip_distance (ps ! ((s * length ps) div (resetSamples st + 1)))
                                 (ps ! ((s * length ps) div (resetSamples st + 1) + 1)))"
    by simp_all
  show ?case
    by (simp add: for_loop_err_Suc IH GetDivergence_body_in_range [OF w k r ne])
qed

lemma sample_indices_in_range_iff:
  assumes "1 \<le> resetSamples st" "resetSamples st * count < 2 ^ 24" "2 \<le> count"
  shows "(\<forall>s<resetSamples st. sample_index st count s + 1 < count)
           \<longleftrightarrow> resetSamples st + 2 \<le> 2 * count"
proof -
  have i: "sample_index st count s = (s * count) div (resetSamples st + 1)"
    if "s < resetSamples st" for s
    by (rule sample_index_div [OF sample_regime [OF that assms(2,3)]])
  show ?thesis
  proof
    assume a: "\<forall>s<resetSamples st. sample_index st count s + 1 < count"
    have l: "resetSamples st - 1 < resetSamples st" using assms(1) by simp
    with a have "sample_index st count (resetSamples st - 1) + 1 < count" by blast
    then have "((resetSamples st - 1) * count) div (resetSamples st + 1) + 1 < count"
      by (simp only: i [OF l])
    then show "resetSamples st + 2 \<le> 2 * count"
      using sample_out_of_range [OF assms(1), of count] by blast
  next
    assume r: "resetSamples st + 2 \<le> 2 * count"
    show "\<forall>s<resetSamples st. sample_index st count s + 1 < count"
    proof (intro allI impI)
      fix s assume s: "s < resetSamples st"
      show "sample_index st count s + 1 < count"
        unfolding i [OF s] by (rule sample_in_range [OF s r])
    qed
  qed
qed

lemma InitializePendulums_chain_ok:
  assumes "1 \<le> pendulumsJoined st"
  shows "\<exists>jp. InitializePendulums_chain st G m i = Inr jp
     \<and> length (pendulums jp) = pendulumsJoined st
     \<and> angle (pendulums jp ! 0)
         = pi + 0.125 + real i / real m * 0.0001
           + (fmod (of_int G * 0.5 + pi / 8) (pi / 4) - pi / 8)
     \<and> (\<forall>j. 1 \<le> j \<and> j < pendulumsJoined st \<longrightarrow> angle (pendulums jp ! j) = pi)
     \<and> trajectories jp = replicate (trajectoryPoints st) (Vector2Double 0 0)
     \<and> trajectoryIndex jp = 0"
proof -
  let ?n = "pendulumsJoined st"
  let ?a0 = "pi + 0.125 + real i / real m * 0.0001
           + (fmod (of_int G * 0.5 + pi / 8) (pi / 4) - pi / 8)"
  let ?angles = "(replicate ?n pi)[0 := ?a0]"
  have eq: "InitializePendulums_chain st G m i =
     JoinedPendulum_ctor ?n (replicate ?n (pendulumLength st)) (replicate ?n (pendulumMass st))
       ?angles (trajectoryPoints st)"
    using assms by (simp add: InitializePendulums_chain_def Let_def)
  have l: "length (replicate ?n (pendulumLength st)) = ?n"
    "length (replicate ?n (pendulumMass st)) = ?n" "length ?angles = ?n"
    by simp_all
  show ?thesis
  proof (rule ctor_ok [OF l, of "trajectoryPoints st"])
    fix jp
    assume jp: "JoinedPendulum_ctor ?n (replicate ?n (pendulumLength st))
        (replicate ?n (pendulumMass st)) ?angles (trajectoryPoints st) = Inr jp"
      "length (pendulums jp) = ?n"
      "trajectories jp = replicate (trajectoryPoints st) (Vector2Double 0 0)"
      "trajectoryIndex jp = 0"
      and ang: "\<And>j. j < ?n \<Longrightarrow> angle (pendulums jp ! j) = ?angles ! j"
    have "angle (pendulums jp ! 0) = ?a0" using ang [of 0] assms by simp
    moreover have "angle (pendulums jp ! j) = pi" if "1 \<le> j \<and> j < ?n" for j
      using ang [of j] that by simp
    ultimately show ?thesis using jp eq by simp
  qed
qed

lemma InitializePendulums_loop:
  assumes n: "1 \<le> pendulumsJoined st" and l: "length ps0 = m"
  shows "k \<le> m \<Longrightarrow>
     \<exists>ps. for_loop_err 0 k (InitializePendulums_body st G) ps0 = Inr ps \<and> length ps = m
        \<and> (\<forall>j<k. InitializePendulums_chain st G m j = Inr (ps ! j))"
proof (induction k)
  case 0
  then show ?case using l by simp
next
  case (Suc k)
  then obtain ps where ps: "for_loop_err 0 k (InitializePendulums_body st G) ps0 = Inr ps"
    "length ps = m" "\<forall>j<k. InitializePendulums_chain st G m j = Inr (ps ! j)"
    by auto
  from InitializePendulums_chain_ok [OF n, of G m k]
  obtain jp where jp: "InitializePendulums_chain st G m k = Inr jp" by blast
  have "for_loop_err 0 (Suc k) (InitializePendulums_body st G) ps0 = Inr (ps[k := jp])"
    by (simp add: for_loop_err_Suc ps InitializePendulums_body_def jp)
  moreover have "\<forall>j<Suc k. InitializePendulums_chain st G m j = Inr (ps[k := jp] ! j)"
    using ps(2,3) jp Suc.prems by (auto simp: nth_list_update less_Suc_eq)
  ultimately show ?case using ps(2) by simp
qed

lemma fmod_nonneg:
  assumes "0 \<le> a" "0 < b"
  shows "fmod a b = a - of_int \<lfloor>a / b\<rfloor> * b"
  using assms by (simp add: fmod_def)

lemma fmod_pi_8: "fmod (pi / 8) (pi / 4) = pi / 8"
proof -
  have "pi / 8 / (pi / 4) = 1 / 2" by simp
  then show ?thesis by (simp add: fmod_def)
qed

section \<open>Construction errors\<close>

text \<open>
  C9. Chain construction fails, with a \<open>std::runtime_error\<close>, if and only if one of the
  arrays \<open>lengths\<close>, \<open>masses\<close>, \<open>initialAngles\<close> has a size other than the requested
  segment count. A failed construction yields the error alone: the result carries no
  segment sequence and no trajectory buffer. A chain exists exactly when the three sizes
  match, and it is then complete: all \<open>sz\<close> segments, the whole buffer, the cursor at 0.
\<close>

theorem ctor_fails_iff_size_mismatch:
  "((\<exists>msg. JoinedPendulum_ctor sz lengths masses initialAngles trajectoriesSize
              = Inl (RuntimeError msg))
     \<longleftrightarrow> (length lengths \<noteq> sz \<or> length masses \<noteq> sz \<or> length initialAngles \<noteq> sz))
   \<and> ((\<exists>jp. JoinedPendulum_ctor sz lengths masses initialAngles trajectoriesSize = Inr jp
            \<and> length (pendulums jp) = sz \<and> length (trajectories jp) = trajectoriesSize
            \<and> trajectoryIndex jp = 0)
     \<longleftrightarrow> (length lengths = sz \<and> length masses = sz \<and> length initialAngles = sz))"
proof -
  have fail: "\<exists>msg. JoinedPendulum_ctor sz lengths masses initialAngles trajectoriesSize
              = Inl (RuntimeError msg)"
    if "length lengths \<noteq> sz \<or> length masses \<noteq> sz \<or> length initialAngles \<noteq> sz"
    using that by (auto simp: JoinedPendulum_ctor_def)
  have ok: "\<exists>jp. JoinedPendulum_ctor sz lengths masses initialAngles trajectoriesSize = Inr jp
            \<and> length (pendulums jp) = sz \<and> length (trajectories jp) = trajectoriesSize
            \<and> trajectoryIndex jp = 0"
    if "length lengths = sz \<and> length masses = sz \<and> length initialAngles = sz"
  proof -
    from that have l: "length lengths = sz" "length masses = sz" "length initialAngles = sz"
      by simp_all
    show ?thesis
      by (rule ctor_ok [OF l, of trajectoriesSize]) auto
  qed
  show ?thesis using fail ok by (metis Inl_Inr_False)
qed

text \<open>
  Two calls with two segments requested: one with a single length, which fails, and one
  with matching arrays, which builds the chain.
\<close>

theorem ctor_fails_iff_size_mismatch_witness:
  "(\<exists>msg. JoinedPendulum_ctor 2 [1] [1, 1] [0, 0] 5 = Inl (RuntimeError msg))
   \<and> (\<exists>jp. JoinedPendulum_ctor 2 [1, 1] [1, 1] [0, 0] 5 = Inr jp
         \<and> length (pendulums jp) = 2 \<and> length (trajectories jp) = 5 \<and> trajectoryIndex jp = 0)"
  using ctor_fails_iff_size_mismatch [of 2 "[1]" "[1, 1]" "[0, 0]" 5]
        ctor_fails_iff_size_mismatch [of 2 "[1, 1]" "[1, 1]" "[0, 0]" 5]
  by simp

section \<open>Population seeding\<close>

text \<open>
  C8. Seeding a population of \<open>M\<close> chains of at least one segment with the generation
  counter \<open>G\<close> succeeds, and chain \<open>i\<close> starts with its first segment at the angle
  \<open>\<pi> + 0.125 + (i / M) * 0.0001 + fmod (G * 0.5 + \<pi> / 8) (\<pi> / 4) - \<pi> / 8\<close>, every
  other segment at \<open>\<pi>\<close> exactly, a trajectory buffer filled with zero vectors and the
  cursor at 0. For a counter \<open>G \<ge> 0\<close>, as a count of resets is, the remainder
  \<open>fmod\<close> is the remainder of the floored division.
\<close>

theorem seeding_initial_state:
  assumes "1 \<le> pendulumsJoined st" and "i < joinedPendulumsCount st"
  shows "\<exists>ps. InitializePendulums st G = Inr ps \<and> length ps = joinedPendulumsCount st
     \<and> length (pendulums (ps ! i)) = pendulumsJoined st
     \<and> angle (pendulums (ps ! i) ! 0)
         = pi + 0.125 + (real i / real (joinedPendulumsCount st)) * 0.0001
           + fmod (of_int G * 0.5 + pi / 8) (pi / 4) - pi / 8
     \<and> (\<forall>j. 1 \<le> j \<and> j < pendulumsJoined st \<longrightarrow> angle (pendulums (ps ! i) ! j) = pi)
     \<and> trajectories (ps ! i) = replicate (trajectoryPoints st) (Vector2Double 0 0)
     \<and> trajectoryIndex (ps ! i) = 0
     \<and> (0 \<le> G \<longrightarrow> fmod (of_int G * 0.5 + pi / 8) (pi / 4)
           = (of_int G * 0.5 + pi / 8)
             - of_int \<lfloor>(of_int G * 0.5 + pi / 8) / (pi / 4)\<rfloor> * (pi / 4))"
proof -
  let ?m = "joinedPendulumsCount st"
  have l: "length (replicate ?m JoinedPendulum_default) = ?m" by simp
  from InitializePendulums_loop [OF assms(1) l order_refl, of G]
  obtain ps where ps: "for_loop_err 0 ?m (InitializePendulums_body st G)
        (replicate ?m JoinedPendulum_default) = Inr ps"
    "length ps = ?m" "\<forall>j<?m. InitializePendulums_chain st G ?m j = Inr (ps ! j)"
    by blast
  have init: "InitializePendulums st G = Inr ps"
    by (simp add: InitializePendulums_def Let_def ps(1))
  from ps(3) assms(2) have c: "InitializePendulums_chain st G ?m i = Inr (ps ! i)" by blast
  from InitializePendulums_chain_ok [OF assms(1), of G ?m i] c
  have chain: "length (pendulums (ps ! i)) = pendulumsJoined st
     \<and> angle (pendulums (ps ! i) ! 0)
         = pi + 0.125 + real i / real ?m * 0.0001
           + (fmod (of_int G * 0.5 + pi / 8) (pi / 4) - pi / 8)
     \<and> (\<forall>j. 1 \<le> j \<and> j < pendulumsJoined st \<longrightarrow> angle (pendulums (ps ! i) ! j) = pi)
     \<and> trajectories (ps ! i) = replicate (trajectoryPoints st) (Vector2Double 0 0)
     \<and> trajectoryIndex (ps ! i) = 0"
    by auto
  have md: "fmod (of_int G * 0.5 + pi / 8) (pi / 4)
           = (of_int G * 0.5 + pi / 8)
             - of_int \<lfloor>(of_int G * 0.5 + pi / 8) / (pi / 4)\<rfloor> * (pi / 4)" if "0 \<le> G"
  proof (rule fmod_nonneg)
    show "0 \<le> real_of_int G * 0.5 + pi / 8" using that by simp
    show "0 < pi / 4" by simp
  qed
  show ?thesis using init ps(2) chain md by auto
qed

text \<open>
  The default settings, first seeding (\<open>G = 0\<close>), chain 500 of 1000: the first angle
  is \<open>\<pi> + 0.12505\<close>.
\<close>

theorem seeding_initial_state_witness:
  "1 \<le> pendulumsJoined SimulationSettings_default
   \<and> 500 < joinedPendulumsCount SimulationSettings_default
   \<and> (\<exists>ps. InitializePendulums SimulationSettings_default 0 = Inr ps \<and> length ps = 1000
         \<and> angle (pendulums (ps ! 500) ! 0) = pi + 0.12505
         \<and> angle (pendulums (ps ! 500) ! 1) = pi
         \<and> trajectories (ps ! 500) = replicate 50 (Vector2Double 0 0)
         \<and> trajectoryIndex (ps ! 500) = 0)
   \<and> fmod (of_int 0 * 0.5 + pi / 8) (pi / 4)
       = (of_int 0 * 0.5 + pi / 8) - of_int \<lfloor>(of_int 0 * 0.5 + pi / 8) / (pi / 4)\<rfloor> * (pi / 4)"
proof -
  have h: "1 \<le> pendulumsJoined SimulationSettings_default"
    "500 < joinedPendulumsCount SimulationSettings_default"
    by (simp_all add: SimulationSettings_default_def)
  have v: "pendulumsJoined SimulationSettings_default = 2"
    "joinedPendulumsCount SimulationSettings_default = 1000"
    "trajectoryPoints SimulationSettings_default = 50"
    by (simp_all add: SimulationSettings_default_def)
  from seeding_initial_state [OF h, of 0]
  obtain ps where ps: "InitializePendulums SimulationSettings_default 0 = Inr ps"
    "length ps = joinedPendulumsCount SimulationSettings_default"
    "angle (pendulums (ps ! 500) ! 0)
       = pi + 0.125 + (real 500 / real (joinedPendulumsCount SimulationSettings_default)) * 0.0001
         + fmod (of_int 0 * 0.5 + pi / 8) (pi / 4) - pi / 8"
    "\<forall>j. 1 \<le> j \<and> j < pendulumsJoined SimulationSettings_default
         \<longrightarrow> angle (pendulums (ps ! 500) ! j) = pi"
    "trajectories (ps ! 500)
       = replicate (trajectoryPoints SimulationSettings_default) (Vector2Double 0 0)"
    "trajectoryIndex (ps ! 500) = 0"
    and md: "(0::int) \<le> 0 \<longrightarrow> fmod (of_int 0 * 0.5 + pi / 8) (pi / 4)
       = (of_int 0 * 0.5 + pi / 8) - of_int \<lfloor>(of_int 0 * 0.5 + pi / 8) / (pi / 4)\<rfloor> * (pi / 4)"
    by blast
  have "angle (pendulums (ps ! 500) ! 1) = pi" using ps(4) by (simp add: v)
  moreover have "angle (pendulums (ps ! 500) ! 0) = pi + 0.12505"
    using ps(3) by (simp add: v fmod_pi_8)
  ultimately have "\<exists>ps. InitializePendulums SimulationSettings_default 0 = Inr ps \<and> length ps = 1000
         \<and> angle (pendulums (ps ! 500) ! 0) = pi + 0.12505
         \<and> angle (pendulums (ps ! 500) ! 1) = pi
         \<and> trajectories (ps ! 500) = replicate 50 (Vector2Double 0 0)
         \<and> trajectoryIndex (ps ! 500) = 0"
    using ps(1,2,5,6) by (auto simp: v)
  with h md show ?thesis by blast
qed

section \<open>The single pendulum case\<close>

text \<open>
  C3. A chain with exactly one segment, with gravity \<open>g\<close>, length \<open>l\<close> and time step \<open>h\<close>:
  after one tick the angular acceleration is \<open>- (g / l) * sin angle_before\<close>, the angular
  velocity is that acceleration times \<open>h\<close>, whatever the velocity was before the tick,
  and the angle is \<open>angle_before\<close> plus the new velocity times \<open>h\<close>.
\<close>

theorem single_segment_tick:
  assumes "length (pendulums jp) = 1"
  shows "\<exists>jp'. Update st jp = Inr jp' \<and> length (pendulums jp') = 1
     \<and> angularAcceleration (pendulums jp' ! 0)
         = - (gravity st / lengthP (pendulums jp ! 0)) * sin (angle (pendulums jp ! 0))
     \<and> angularVelocity (pendulums jp' ! 0)
         = angularAcceleration (pendulums jp' ! 0) * fixedDeltaTime st
     \<and> angle (pendulums jp' ! 0)
         = angle (pendulums jp ! 0) + angularVelocity (pendulums jp' ! 0) * fixedDeltaTime st"
  by (simp add: Update_single_case [OF assms] Update_single_def Let_def)

text \<open>
  One segment of length 1 at the angle \<open>\<pi> / 2\<close> that enters the tick with the angular
  velocity 5, under gravity \<open>\<pi> / 2\<close> and a time step of 1: the velocity after the tick
  is \<open>- \<pi> / 2\<close>, the acceleration times the step, and the angle is 0.
\<close>

theorem single_segment_tick_witness:
  "length (pendulums (example_single\<lparr> pendulums :=
       [(Pendulum_init 1 1 (pi / 2))\<lparr> angularVelocity := 5 \<rparr>] \<rparr>)) = 1
   \<and> (\<exists>jp'. Update example_settings (example_single\<lparr> pendulums :=
               [(Pendulum_init 1 1 (pi / 2))\<lparr> angularVelocity := 5 \<rparr>] \<rparr>) = Inr jp'
          \<and> angularAcceleration (pendulums jp' ! 0) = - (pi / 2)
          \<and> angularVelocity (pendulums jp' ! 0) = - (pi / 2)
          \<and> angle (pendulums jp' ! 0) = 0)"
  using single_segment_tick [of "example_single\<lparr> pendulums :=
       [(Pendulum_init 1 1 (pi / 2))\<lparr> angularVelocity := 5 \<rparr>] \<rparr>" example_settings]
  by (auto simp: Pendulum_init_def example_settings_def)

section \<open>The general case\<close>

text \<open>
  C4. A chain with at least two segments, whose cursor lies in the buffer: however far
  the acceleration loop has run, every angle and every angular velocity is still the one
  from before the tick, so the accelerations are computed from the snapshot alone
  (\<open>snapshot_accel\<close> reads nothing but the segments as given); after the tick the
  velocity of every segment is the old one plus acceleration times \<open>dt\<close>, and the angle
  the old one plus the new velocity times \<open>dt\<close>.
\<close>

theorem multi_segment_tick_synchronous:
  assumes "2 \<le> length (pendulums jp)" "trajectoryIndex jp < length (trajectories jp)"
  shows "\<exists>jp'. Update st jp = Inr jp' \<and> length (pendulums jp') = length (pendulums jp)
     \<and> (\<forall>k<length (pendulums jp). \<forall>i<length (pendulums jp).
           angle (for_loop 0 k (Update_accel_body st) (pendulums jp) ! i) = angle (pendulums jp ! i)
         \<and> angularVelocity (for_loop 0 k (Update_accel_body st) (pendulums jp) ! i)
              = angularVelocity (pendulums jp ! i))
     \<and> (\<forall>i<length (pendulums jp).
           angularAcceleration (pendulums jp' ! i) = snapshot_accel st (pendulums jp) i
         \<and> angularVelocity (pendulums jp' ! i)
              = angularVelocity (pendulums jp ! i)
                + angularAcceleration (pendulums jp' ! i) * fixedDeltaTime st
         \<and> angle (pendulums jp' ! i)
              = angle (pendulums jp ! i) + angularVelocity (pendulums jp' ! i) * fixedDeltaTime st)"
proof -
  let ?ps = "pendulums jp"
  have pre: "angle (for_loop 0 k (Update_accel_body st) ?ps ! i) = angle (?ps ! i)
         \<and> angularVelocity (for_loop 0 k (Update_accel_body st) ?ps ! i) = angularVelocity (?ps ! i)"
    if "k < length ?ps" "i < length ?ps" for k i
    by (simp add: accel_loop_nth [OF that])
  have post: "angularAcceleration (Update_loops st ?ps ! i) = snapshot_accel st ?ps i
         \<and> angularVelocity (Update_loops st ?ps ! i)
              = angularVelocity (?ps ! i)
                + angularAcceleration (Update_loops st ?ps ! i) * fixedDeltaTime st
         \<and> angle (Update_loops st ?ps ! i)
              = angle (?ps ! i) + angularVelocity (Update_loops st ?ps ! i) * fixedDeltaTime st"
    if "i < length ?ps" for i
    by (simp add: Update_loops_nth [OF assms(1) that])
  show ?thesis
    using pre post by (simp add: Update_multi [OF assms])
qed

text \<open>
  The chain of two segments at the angles \<open>\<pi> / 2\<close> and 0, under gravity \<open>\<pi> / 2\<close> and a
  time step of 1.
\<close>

theorem multi_segment_tick_synchronous_witness:
  "2 \<le> length (pendulums example_double)
   \<and> trajectoryIndex example_double < length (trajectories example_double)
   \<and> (\<exists>jp'. Update example_settings example_double = Inr jp'
          \<and> angularAcceleration (pendulums jp' ! 0) = - (pi / 2)
          \<and> angularVelocity (pendulums jp' ! 0) = - (pi / 2)
          \<and> angle (pendulums jp' ! 0) = 0
          \<and> angularAcceleration (pendulums jp' ! 1) = 0)"
proof -
  have h: "2 \<le> length (pendulums example_double)"
    "trajectoryIndex example_double < length (trajectories example_double)"
    by (simp_all add: example_double_def)
  have s: "snapshot_accel example_settings (pendulums example_double) 0 = - (pi / 2)"
    "snapshot_accel example_settings (pendulums example_double) (Suc 0) = 0"
    by (simp_all add: snapshot_accel_def pair_first_def pair_second_def tick_eval example_double_def)
  have v: "angularVelocity (pendulums example_double ! 0) = 0"
    "angle (pendulums example_double ! 0) = pi / 2"
    "fixedDeltaTime example_settings = 1" "length (pendulums example_double) = 2"
    by (simp_all add: example_double_def Pendulum_init_def example_settings_def)
  from multi_segment_tick_synchronous [OF h, of example_settings]
  obtain jp' where "Update example_settings example_double = Inr jp'"
    and "\<forall>i<length (pendulums example_double).
           angularAcceleration (pendulums jp' ! i) = snapshot_accel example_settings (pendulums example_double) i
         \<and> angularVelocity (pendulums jp' ! i)
              = angularVelocity (pendulums example_double ! i)
                + angularAcceleration (pendulums jp' ! i) * fixedDeltaTime example_settings
         \<and> angle (pendulums jp' ! i)
              = angle (pendulums example_double ! i)
                + angularVelocity (pendulums jp' ! i) * fixedDeltaTime example_settings"
    by blast
  then have "Update example_settings example_double = Inr jp'
          \<and> angularAcceleration (pendulums jp' ! 0) = - (pi / 2)
          \<and> angularVelocity (pendulums jp' ! 0) = - (pi / 2)
          \<and> angle (pendulums jp' ! 0) = 0
          \<and> angularAcceleration (pendulums jp' ! 1) = 0"
    by (simp add: v s)
  with h show ?thesis by blast
qed

text \<open>
  C10. A chain with at least three segments and an interior segment \<open>i\<close>
  (\<open>1 \<le> i \<le> N - 2\<close>): through the acceleration loop the acceleration of \<open>i\<close> is
  the one from before the tick until the iteration of the pair \<open>(i - 1, i)\<close> writes
  the second body's value, and the next iteration, of the pair \<open>(i, i + 1)\<close>, replaces it
  by the first body's value, which stays. The tick integrates velocity and angle of \<open>i\<close>
  with that first body's value; every segment but the last ends with a first body's value,
  the last one with the second body's value of the last pair.
\<close>

theorem interior_acceleration_overwritten:
  assumes n: "3 \<le> length (pendulums jp)"
    and c: "trajectoryIndex jp < length (trajectories jp)"
    and i: "1 \<le> i" "i + 2 \<le> length (pendulums jp)"
  shows "(\<forall>k<length (pendulums jp).
            angularAcceleration (for_loop 0 k (Update_accel_body st) (pendulums jp) ! i)
              = (if k < i then angularAcceleration (pendulums jp ! i)
                 else if k = i then pair_second st (pendulums jp ! (i - 1)) (pendulums jp ! i)
                 else pair_first st (pendulums jp ! i) (pendulums jp ! (i + 1))))
     \<and> (\<exists>jp'. Update st jp = Inr jp'
          \<and> angularAcceleration (pendulums jp' ! i)
               = pair_first st (pendulums jp ! i) (pendulums jp ! (i + 1))
          \<and> angularVelocity (pendulums jp' ! i)
               = angularVelocity (pendulums jp ! i)
                 + pair_first st (pendulums jp ! i) (pendulums jp ! (i + 1)) * fixedDeltaTime st
          \<and> angle (pendulums jp' ! i)
               = angle (pendulums jp ! i) + angularVelocity (pendulums jp' ! i) * fixedDeltaTime st
          \<and> (\<forall>j. j + 1 < length (pendulums jp) \<longrightarrow>
                angularAcceleration (pendulums jp' ! j)
                  = pair_first st (pendulums jp ! j) (pendulums jp ! (j + 1)))
          \<and> angularAcceleration (pendulums jp' ! (length (pendulums jp) - 1))
               = pair_second st (pendulums jp ! (length (pendulums jp) - 2))
                   (pendulums jp ! (length (pendulums jp) - 1)))"
proof -
  let ?ps = "pendulums jp"
  have n2: "2 \<le> length ?ps" and il: "i < length ?ps" using n i by simp_all
  have hist: "angularAcceleration (for_loop 0 k (Update_accel_body st) ?ps ! i)
              = (if k < i then angularAcceleration (?ps ! i)
                 else if k = i then pair_second st (?ps ! (i - 1)) (?ps ! i)
                 else pair_first st (?ps ! i) (?ps ! (i + 1)))"
    if "k < length ?ps" for k
    using i by (auto simp: accel_loop_nth [OF that il] accel_after_def)
  have first: "snapshot_accel st ?ps j = pair_first st (?ps ! j) (?ps ! (j + 1))"
    if "j + 1 < length ?ps" for j
    using that by (simp add: snapshot_accel_def)
  have last: "snapshot_accel st ?ps (length ?ps - 1)
                = pair_second st (?ps ! (length ?ps - 2)) (?ps ! (length ?ps - 1))"
  proof -
    have a: "\<not> (length ?ps - 1 + 1 < length ?ps)" using n by simp
    have b: "length ?ps - 1 - 1 = length ?ps - 2" by simp
    show ?thesis by (simp only: snapshot_accel_def a b if_False)
  qed
  have fin: "angularAcceleration (Update_loops st ?ps ! j) = snapshot_accel st ?ps j
         \<and> angularVelocity (Update_loops st ?ps ! j)
              = angularVelocity (?ps ! j) + snapshot_accel st ?ps j * fixedDeltaTime st
         \<and> angle (Update_loops st ?ps ! j)
              = angle (?ps ! j) + angularVelocity (Update_loops st ?ps ! j) * fixedDeltaTime st"
    if "j < length ?ps" for j
    by (simp add: Update_loops_nth [OF n2 that])
  have i1: "i + 1 < length ?ps" using i by simp
  have nl: "length ?ps - 1 < length ?ps" using n by simp
  show ?thesis
    using hist fin [OF il] fin [OF nl] fin first [OF i1] first last
    by (simp add: Update_multi [OF n2 c])
qed

text \<open>
  The chain of three segments at the angles \<open>\<pi> / 4\<close>, 0 and \<open>\<pi> / 4\<close>: the middle
  segment starts with acceleration 0, holds \<open>\<pi> / 3\<close> after the first iteration and
  \<open>\<pi> / 6\<close> after the second, and the tick integrates with \<open>\<pi> / 6\<close>.
\<close>

theorem interior_acceleration_overwritten_witness:
  "3 \<le> length (pendulums example_triple)
   \<and> trajectoryIndex example_triple < length (trajectories example_triple)
   \<and> angularAcceleration (pendulums example_triple ! 1) = 0
   \<and> angularAcceleration
         (for_loop 0 1 (Update_accel_body example_settings) (pendulums example_triple) ! 1) = pi / 3
   \<and> angularAcceleration
         (for_loop 0 2 (Update_accel_body example_settings) (pendulums example_triple) ! 1) = pi / 6
   \<and> (\<exists>jp'. Update example_settings example_triple = Inr jp'
          \<and> angularAcceleration (pendulums jp' ! 1) = pi / 6
          \<and> angularVelocity (pendulums jp' ! 1) = pi / 6)"
proof -
  have h: "3 \<le> length (pendulums example_triple)"
    "trajectoryIndex example_triple < length (trajectories example_triple)"
    "1 \<le> (1::nat)" "1 + 2 \<le> length (pendulums example_triple)"
    by (simp_all add: example_triple_def)
  have v: "angularVelocity (pendulums example_triple ! Suc 0) = 0"
    "angularAcceleration (pendulums example_triple ! Suc 0) = 0"
    "fixedDeltaTime example_settings = 1" "length (pendulums example_triple) = 3"
    by (simp_all add: example_triple_def Pendulum_init_def example_settings_def)
  note T = interior_acceleration_overwritten [OF h, of example_settings]
  have A: "\<forall>k<length (pendulums example_triple).
            angularAcceleration
              (for_loop 0 k (Update_accel_body example_settings) (pendulums example_triple) ! 1)
              = (if k < 1 then angularAcceleration (pendulums example_triple ! 1)
                 else if k = 1
                   then pair_second example_settings (pendulums example_triple ! (1 - 1))
                          (pendulums example_triple ! 1)
                 else pair_first example_settings (pendulums example_triple ! 1)
                        (pendulums example_triple ! (1 + 1)))"
    using T by (rule conjunct1)
  have a1: "angularAcceleration
         (for_loop 0 1 (Update_accel_body example_settings) (pendulums example_triple) ! 1) = pi / 3"
    using A [rule_format, of 1] by (simp add: v example_triple_pairs)
  have a2: "angularAcceleration
         (for_loop 0 2 (Update_accel_body example_settings) (pendulums example_triple) ! 1) = pi / 6"
    using A [rule_format, of 2] by (simp add: v example_triple_pairs)
  have B: "\<exists>jp'. Update example_settings example_triple = Inr jp'
          \<and> angularAcceleration (pendulums jp' ! 1) = pi / 6
          \<and> angularVelocity (pendulums jp' ! 1) = pi / 6"
    using T [THEN conjunct2] by (auto simp: v example_triple_pairs)
  show ?thesis using h(1,2) a1 a2 B v(2) by simp
qed

section \<open>The trajectory write of a tick\<close>

text \<open>
  C2. The claim has every tick of a chain with at least one segment store the position
  of the last segment at the cursor and advance the cursor, single-segment chains
  included. The single pendulum case returns before the write: the chain the constructor
  builds from one segment of length 150 and mass 10 at the angle \<open>\<pi>\<close> with a buffer of
  two points has, after one tick under the default settings, its tip at \<open>(0, -150)\<close>,
  its buffer still filled with zeros and its cursor still at 0.
\<close>

theorem single_segment_tick_skips_trajectory:
  "JoinedPendulum_ctor 1 [150] [10] [pi] 2 = Inr example_single
   \<and> tip_after SimulationSettings_default 1 example_single = Some (Vector2Double 0 (- 150))
   \<and> buffer_after SimulationSettings_default 1 example_single
       = Some [Vector2Double 0 0, Vector2Double 0 0]
   \<and> cursor_after SimulationSettings_default 1 example_single = Some 0"
proof (intro conjI)
  show "JoinedPendulum_ctor 1 [150] [10] [pi] 2 = Inr example_single"
    by (rule example_single_constructed)
  show "tip_after SimulationSettings_default 1 example_single = Some (Vector2Double 0 (- 150))"
    by (simp add: tip_after_def example_single_tick)
  show "buffer_after SimulationSettings_default 1 example_single
       = Some [Vector2Double 0 0, Vector2Double 0 0]"
    by (simp add: buffer_after_def example_single_tick) (simp add: example_single_def)
  show "cursor_after SimulationSettings_default 1 example_single = Some 0"
    by (simp add: cursor_after_def example_single_tick) (simp add: example_single_def)
qed

section \<open>The trajectory buffer across ticks\<close>

text \<open>
  C7, as amended. A chain with at least two segments whose cursor lies in the buffer, of
  capacity \<open>c \<ge> 1\<close>: after \<open>c + 1\<close> ticks the buffer still has \<open>c\<close> entries, its oldest
  entry (the slot at the cursor) is the tip position recorded at tick 2, and the slot that
  tick 1 wrote holds the tip position of tick \<open>c + 1\<close>, whose write replaced the very
  first entry.
\<close>

theorem trajectory_after_capacity_plus_one:
  assumes n: "2 \<le> length (pendulums jp)" and c: "trajectoryIndex jp < length (trajectories jp)"
  shows "map_option length (buffer_after st (length (trajectories jp) + 1) jp)
           = Some (length (trajectories jp))
     \<and> tip_after st 2 jp \<noteq> None
     \<and> oldest_after st (length (trajectories jp) + 1) jp = tip_after st 2 jp
     \<and> map_option (\<lambda>b. b ! trajectoryIndex jp) (buffer_after st (length (trajectories jp) + 1) jp)
           = tip_after st (length (trajectories jp) + 1) jp"
proof -
  let ?c = "length (trajectories jp)"
  let ?x = "trajectoryIndex jp"
  have cpos: "1 \<le> ?c" using c by linarith
  from ticks_trajectory [OF n c, of st "?c + 1"]
  obtain jn where jn: "ticks st (?c + 1) jp = Inr jn"
    and cap: "length (trajectories jn) = ?c"
    and cur: "trajectoryIndex jn = (?x + (?c + 1)) mod ?c"
    and slots: "\<And>m. 1 \<le> m \<and> m \<le> ?c + 1 \<and> ?c + 1 < m + ?c \<Longrightarrow>
           \<exists>jm. ticks st m jp = Inr jm
              \<and> trajectories jn ! ((?x + m - 1) mod ?c) = position (last (pendulums jm))"
    by blast
  have "1 \<le> (2::nat) \<and> 2 \<le> ?c + 1 \<and> ?c + 1 < 2 + ?c" using cpos by linarith
  from slots [OF this] obtain j2 where j2: "ticks st 2 jp = Inr j2"
    and s2: "trajectories jn ! ((?x + 2 - 1) mod ?c) = position (last (pendulums j2))"
    by blast
  have "1 \<le> ?c + 1 \<and> ?c + 1 \<le> ?c + 1 \<and> ?c + 1 < (?c + 1) + ?c" using cpos by linarith
  from slots [OF this] jn
  have sn: "trajectories jn ! ((?x + (?c + 1) - 1) mod ?c) = position (last (pendulums jn))"
    by simp
  have e: "(?x + (?c + 1)) mod ?c = (?x + 1) mod ?c"
  proof -
    have "?x + (?c + 1) = (?x + 1) + ?c" by simp
    then show ?thesis by (simp only: mod_add_self2)
  qed
  have cur': "trajectoryIndex jn = (?x + 2 - 1) mod ?c"
    using cur e by simp
  have first: "(?x + (?c + 1) - 1) mod ?c = ?x" using c by simp
  have "oldest_entry jn = position (last (pendulums j2))"
    using s2 cur' cap by (simp add: oldest_entry_def)
  moreover have "trajectories jn ! ?x = position (last (pendulums jn))"
    using sn first by simp
  ultimately show ?thesis
    using jn j2 cap
    by (simp add: buffer_after_def tip_after_def oldest_after_def del: ticks.simps)
qed

text \<open>
  The chain of two segments with a buffer of one point, after two ticks.
\<close>

theorem trajectory_after_capacity_plus_one_witness:
  "2 \<le> length (pendulums example_double)
   \<and> trajectoryIndex example_double < length (trajectories example_double)
   \<and> map_option length (buffer_after example_settings 2 example_double) = Some 1
   \<and> tip_after example_settings 2 example_double \<noteq> None
   \<and> oldest_after example_settings 2 example_double = tip_after example_settings 2 example_double"
proof -
  have h: "2 \<le> length (pendulums example_double)"
    "trajectoryIndex example_double < length (trajectories example_double)"
    by (simp_all add: example_double_def)
  have l: "length (trajectories example_double) = 1"
    by (simp add: example_double_def)
  from trajectory_after_capacity_plus_one [OF h, of example_settings] h
  show ?thesis by (simp add: l numeral_2_eq_2)
qed

text \<open>
  C7 as stated fails. With two segments and a buffer of one point, the oldest entry after
  two ticks is the tip of tick 2, \<open>(-1, 1)\<close>, not the tip \<open>(0, 2)\<close> recorded at tick 1.
  With one segment and a buffer of two points the buffer is never written: after three
  ticks its oldest entry is still the zero vector, while the tip at tick 1 was
  \<open>(0, -150)\<close>.
\<close>

theorem oldest_entry_after_wrap_counterexample:
  "oldest_after example_settings (length (trajectories example_double) + 1) example_double
     = Some (Vector2Double (- 1) 1)
   \<and> tip_after example_settings 1 example_double = Some (Vector2Double 0 2)
   \<and> oldest_after example_settings (length (trajectories example_double) + 1) example_double
       \<noteq> tip_after example_settings 1 example_double
   \<and> oldest_after example_settings (length (trajectories example_single) + 1) example_single
       = Some (Vector2Double 0 0)
   \<and> tip_after example_settings 1 example_single = Some (Vector2Double 0 (- 150))
   \<and> oldest_after example_settings (length (trajectories example_single) + 1) example_single
       \<noteq> tip_after example_settings 1 example_single"
proof -
  have l: "length (trajectories example_double) + 1 = Suc (Suc 0)"
    "length (trajectories example_single) + 1 = Suc (Suc (Suc 0))"
    by (simp_all add: example_double_def example_single_def)
  have d1: "tip_after example_settings 1 example_double = Some (Vector2Double 0 2)"
    by (simp add: tip_after_def example_double_tick1 example_double_ticked_def)
  have d2: "oldest_after example_settings (Suc (Suc 0)) example_double = Some (Vector2Double (- 1) 1)"
    by (simp add: oldest_after_def example_double_tick1 example_double_tick2 oldest_entry_def)
  have stay: "Update example_settings (example_single\<lparr> pendulums :=
               [(Pendulum_init 150 10 pi)\<lparr> position := Vector2Double 0 (- 150) \<rparr>] \<rparr>)
             = Inr (example_single\<lparr> pendulums :=
               [(Pendulum_init 150 10 pi)\<lparr> position := Vector2Double 0 (- 150) \<rparr>] \<rparr>)"
    by (simp add: Update_def Update_single_def Pendulum_init_def)
  have s1: "tip_after example_settings 1 example_single = Some (Vector2Double 0 (- 150))"
    by (simp add: tip_after_def example_single_tick)
  have s3: "oldest_after example_settings (Suc (Suc (Suc 0))) example_single
              = Some (Vector2Double 0 0)"
    by (simp add: oldest_after_def example_single_tick stay oldest_entry_def)
       (simp add: example_single_def)
  show ?thesis unfolding l d1 d2 s1 s3 by simp
qed

section \<open>The divergence estimator\<close>

text \<open>
  C5, as amended. For the empty population the estimator returns exactly 0. For a
  population of \<open>M\<close> chains, each with at least one segment, and a sample count \<open>R\<close>
  with \<open>1 \<le> R \<le> 2 * M - 2\<close> and \<open>R * M < 2 ^ 24\<close>, so that the single precision
  computation of the index is exact, it returns the mean over \<open>s\<close> in \<open>[0, R)\<close> of the
  Euclidean distance between the tips of the chain at index \<open>floor (s * M / (R + 1))\<close>
  and of the chain at that index plus one.
\<close>

theorem divergence_is_mean_adjacent_distance:
  assumes "1 \<le> resetSamples st"
    and "resetSamples st + 2 \<le> 2 * length ps"
    and "resetSamples st * length ps < 2 ^ 24"
    and "\<forall>c\<in>set ps. pendulums c \<noteq> []"
  shows "GetDivergence st [] = Inr 0
     \<and> GetDivergence st ps =
         Inr ((\<Sum>s<resetSamples st.
                 tip_distance (ps ! ((s * length ps) div (resetSamples st + 1)))
                              (ps ! ((s * length ps) div (resetSamples st + 1) + 1)))
              / real (resetSamples st))"
proof -
  have "ps \<noteq> []" using assms(1,2) by auto
  moreover have "resetSamples st \<noteq> 0" using assms(1) by simp
  ultimately show ?thesis
    by (simp add: GetDivergence_def GetDivergence_loop [OF assms(3,2,4) order_refl])
qed

text \<open>
  Two chains of two segments, one as constructed and one a tick later, and one sample:
  the tips \<open>(0, 1)\<close> and \<open>(0, 2)\<close> are at distance 1.
\<close>

theorem divergence_is_mean_adjacent_distance_witness:
  "1 \<le> resetSamples (SimulationSettings_default\<lparr> resetSamples := 1 \<rparr>)
   \<and> resetSamples (SimulationSettings_default\<lparr> resetSamples := 1 \<rparr>) + 2
        \<le> 2 * length [example_double, example_double_ticked]
   \<and> GetDivergence (SimulationSettings_default\<lparr> resetSamples := 1 \<rparr>)
         [example_double, example_double_ticked] = Inr 1"
proof -
  let ?st = "SimulationSettings_default\<lparr> resetSamples := 1 \<rparr>"
  let ?ps = "[example_double, example_double_ticked]"
  have h: "1 \<le> resetSamples ?st" "resetSamples ?st + 2 \<le> 2 * length ?ps"
    "resetSamples ?st * length ?ps < 2 ^ 24" "\<forall>c\<in>set ?ps. pendulums c \<noteq> []"
    by (simp_all add: example_double_def example_double_ticked_def)
  have d: "tip_distance example_double example_double_ticked = 1"
    by (simp add: tip_distance_def example_double_def example_double_ticked_def)
  from divergence_is_mean_adjacent_distance [OF h] h(1,2)
  show ?thesis by (simp add: d)
qed

text \<open>
  C5 as stated fails. On a population of one chain, under the default settings, the first
  sample already reads the chain at index 1, beyond the population; with a sample count
  of 0 the estimator divides \<open>0.0\<close> by 0 and returns a NaN, not a mean. And the index is
  the floor of a single precision quotient, not of the exact one: with 5800 samples and
  2901 chains the product \<open>5799 * 2901 = 16822899\<close> is rounded to 16822900 and the sample
  5799 has the index 2900, not 2899, so that the estimator reads chain 2901 of 2901;
  with the default 100 samples and 169529 chains the sample 99 has the index 166172,
  not 166171.
\<close>

theorem divergence_out_of_range_counterexample:
  "GetDivergence SimulationSettings_default [example_double] = Inl OutOfRange
   \<and> GetDivergence (SimulationSettings_default\<lparr> resetSamples := 0 \<rparr>)
        [example_double, example_double_ticked] = Inl NotANumber
   \<and> sample_index (SimulationSettings_default\<lparr> resetSamples := 5800 \<rparr>) 2901 5799 = 2900
   \<and> (5799 * 2901) div (5800 + 1) = (2899::nat)
   \<and> sample_index SimulationSettings_default 169529 99 = 166172
   \<and> (99 * 169529) div (100 + 1) = (166171::nat)"
proof (intro conjI)
  show "GetDivergence SimulationSettings_default [example_double] = Inl OutOfRange"
    by (simp add: GetDivergence_def for_loop_err.simps GetDivergence_body_exact
          SimulationSettings_default_def)
  show "GetDivergence (SimulationSettings_default\<lparr> resetSamples := 0 \<rparr>)
        [example_double, example_double_ticked] = Inl NotANumber"
    by (simp add: GetDivergence_def)
  show "sample_index (SimulationSettings_default\<lparr> resetSamples := 5800 \<rparr>) 2901 5799 = 2900"
    by (simp add: sample_index_def sample_quotient_def sample_product_def float_round_numeral
          float_round_numeral_wide round_even_def)
  show "(5799 * 2901) div (5800 + 1) = (2899::nat)" by simp
  show "sample_index SimulationSettings_default 169529 99 = 166172"
    by (simp add: sample_index_def sample_quotient_def sample_product_def float_round_numeral
          float_round_numeral_wide round_even_def SimulationSettings_default_def)
  show "(99 * 169529) div (100 + 1) = (166171::nat)" by simp
qed

text \<open>
  C6. The claim has \<open>index + 1 < chainCount\<close> for every sample, whatever the sample
  count. With the default 100 samples and 50 chains the sample 99 has index 49, so the
  estimator reads chain 50 of 50; with 3 samples and 2 chains the sample 2 has index 1,
  and the estimator reads chain 2 of 2, beyond the population.
\<close>

theorem sample_index_leaves_population:
  "sample_index SimulationSettings_default 50 99 = 49
   \<and> sample_index (SimulationSettings_default\<lparr> resetSamples := 3 \<rparr>) 2 2 = 1
   \<and> GetDivergence (SimulationSettings_default\<lparr> resetSamples := 3 \<rparr>)
        [example_double, example_double_ticked] = Inl OutOfRange"
proof (intro conjI)
  show "sample_index SimulationSettings_default 50 99 = 49"
    by (simp add: sample_index_div SimulationSettings_default_def)
  show "sample_index (SimulationSettings_default\<lparr> resetSamples := 3 \<rparr>) 2 2 = 1"
    by (simp add: sample_index_div)
  show "GetDivergence (SimulationSettings_default\<lparr> resetSamples := 3 \<rparr>)
        [example_double, example_double_ticked] = Inl OutOfRange"
    by (simp add: GetDivergence_def for_loop_err.simps GetDivergence_body_exact
          chain_tip_def example_double_def example_double_ticked_def)
qed

section \<open>The reset controller\<close>

text \<open>
  C1, as amended. In the Running state (\<open>initiatedReset = 0\<close>), with a divergence \<open>d\<close>,
  the update arms a reset, \<open>initiatedReset = now + resetFadeTime\<close>, exactly when the
  suppress-reset key is not held and the manual-reset key is pressed or
  \<open>d > resetThreshold\<close>; while suppress-reset is held neither trigger arms, the manual one
  included. Reset counter and population stay as they are.
\<close>

theorem reset_arming_gated_by_suppress:
  assumes "initiatedReset gm = 0" and "GetDivergence st (population gm) = Inr d"
  shows "\<exists>gm'. GameUpdate_reset st now resetKey continueKey gm = Inr gm'
     \<and> initiatedReset gm'
         = (if \<not> continueKey \<and> (resetKey \<or> d > resetThreshold st)
            then now + resetFadeTime st else 0)
     \<and> divergence gm' = Some d \<and> resets gm' = resets gm \<and> population gm' = population gm"
  using assms by (simp add: GameUpdate_reset_def Let_def)

text \<open>
  Manual reset pressed, suppress-reset not held, at time 1 with the default fade time of
  2.5: the reset is armed for the time 3.5.
\<close>

theorem reset_arming_gated_by_suppress_witness:
  "initiatedReset \<lparr> divergence = Some 0, resets = 0, initiatedReset = 0, population = [] \<rparr> = 0
   \<and> GetDivergence SimulationSettings_default [] = Inr 0
   \<and> (\<exists>gm'. GameUpdate_reset SimulationSettings_default 1 True False
               \<lparr> divergence = Some 0, resets = 0, initiatedReset = 0, population = [] \<rparr> = Inr gm'
          \<and> initiatedReset gm' = 3.5)"
proof -
  have h: "initiatedReset \<lparr> divergence = Some 0, resets = 0, initiatedReset = 0, population = [] \<rparr> = 0"
    "GetDivergence SimulationSettings_default
       (population \<lparr> divergence = Some 0, resets = 0, initiatedReset = 0, population = [] \<rparr>) = Inr 0"
    by (simp_all add: GetDivergence_def)
  from reset_arming_gated_by_suppress [OF h, of 1 True False]
  show ?thesis by (auto simp: GetDivergence_def SimulationSettings_default_def)
qed

text \<open>
  C1 as stated fails. Manual reset pressed while suppress-reset is held: the controller
  stays in the Running state, \<open>initiatedReset\<close> is still 0.
\<close>

theorem manual_reset_while_suppressed_counterexample:
  "GameUpdate_reset SimulationSettings_default 1 True True
     \<lparr> divergence = Some 0, resets = 0, initiatedReset = 0, population = [] \<rparr>
   = Inr \<lparr> divergence = Some 0, resets = 0, initiatedReset = 0, population = [] \<rparr>"
  by (simp add: GameUpdate_reset_def GetDivergence_def)

end
